theory Spec2Isabelle
  imports Complex_Main
begin

unbundle bit_operations_syntax

section \<open>RF-pico: the OOK pulse-train encoder and decoder of rpi\_rf.py\<close>

text \<open>
  A shallow embedding of \<^verbatim>\<open>src/rpi_rf.py\<close>. Python integers are \<open>int\<close>, the
  attributes of \<^verbatim>\<open>RFDevice\<close> are the fields of the record \<open>rf_device\<close>, every
  method takes the device and returns the updated one, and every exception Python can raise
  in the modelled code is a value of \<open>py_error\<close>. The pin output of the transmitter is the
  list of (level, hold time) events it produces. The clock read of the edge handler
  (\<^verbatim>\<open>utime.ticks_us()\<close>) is an argument, and so is the floating-point division of the
  platform. The debug pins toggled by the handler and the \<^verbatim>\<open>print\<close> calls have no
  effect on the device and are left out.
\<close>

subsection \<open>Constants and the protocol table\<close>

definition MAX_CHANGES :: int where
  "MAX_CHANGES = 67"

definition THRESHOLD_SYNC :: int where
  "THRESHOLD_SYNC = 15000"

definition THRESHOLD_TICK :: int where
  "THRESHOLD_TICK = 300"

definition SCALE_TIME_US :: int where
  "SCALE_TIME_US = 3"

record protocol =
  pulselength :: int
  sync_high :: int
  sync_low :: int
  zero_high :: int
  zero_low :: int
  one_high :: int
  one_low :: int

definition Protocol :: "int \<Rightarrow> int \<Rightarrow> int \<Rightarrow> int \<Rightarrow> int \<Rightarrow> int \<Rightarrow> int \<Rightarrow> protocol" where
  "Protocol pl sh sl zh zl oh ol =
     \<lparr>pulselength = pl, sync_high = sh, sync_low = sl,
      zero_high = zh, zero_low = zl, one_high = oh, one_low = ol\<rparr>"

definition PROTOCOLS :: "protocol option list" where
  "PROTOCOLS =
     [None,
      Some (Protocol 350 1 31 1 3 3 1),
      Some (Protocol 650 1 10 1 2 2 1),
      Some (Protocol 100 30 71 4 11 9 6),
      Some (Protocol 380 1 6 1 3 3 1),
      Some (Protocol 500 6 14 1 2 2 1),
      Some (Protocol 200 1 10 1 5 1 1)]"

subsection \<open>Python sequences, errors and builtins\<close>

datatype seq_name = Timings | Protocols | Rawcode

text \<open>
  \<open>IndexError s\<close> is Python's IndexError, tagged with the sequence that was indexed;
  \<open>AttributeError\<close> is the attribute access on \<^verbatim>\<open>None\<close> (entry 0 of the table);
  \<open>OverflowError\<close> is raised by a division whose quotient is beyond the floats.
\<close>

datatype py_error = IndexError seq_name | AttributeError | ZeroDivisionError | OverflowError

text \<open>Python indexing: an index in \<open>[-len, 0)\<close> counts from the end, anything outside
  \<open>[-len, len)\<close> raises.\<close>

definition py_index :: "nat \<Rightarrow> int \<Rightarrow> nat option" where
  "py_index n i =
     (if 0 \<le> i \<and> i < int n then Some (nat i)
      else if - int n \<le> i \<and> i < 0 then Some (nat (int n + i))
      else None)"

definition py_getitem :: "seq_name \<Rightarrow> 'a list \<Rightarrow> int \<Rightarrow> py_error + 'a" where
  "py_getitem s xs i =
     (case py_index (length xs) i of
        None \<Rightarrow> Inl (IndexError s)
      | Some k \<Rightarrow> Inr (xs ! k))"

definition py_setitem :: "seq_name \<Rightarrow> 'a list \<Rightarrow> int \<Rightarrow> 'a \<Rightarrow> py_error + 'a list" where
  "py_setitem s xs i v =
     (case py_index (length xs) i of
        None \<Rightarrow> Inl (IndexError s)
      | Some k \<Rightarrow> Inr (xs[k := v]))"

text \<open>\<^verbatim>\<open>range(start, stop, step)\<close> for a positive step (the only kind the source uses).\<close>

function py_range :: "int \<Rightarrow> int \<Rightarrow> int \<Rightarrow> int list" where
  "py_range start stop step =
     (if step \<le> 0 \<or> stop \<le> start then []
      else start # py_range (start + step) stop step)"
  by pat_completeness auto
termination
  by (relation "measure (\<lambda>(start, stop, step). nat (stop - start))") auto

declare py_range.simps [simp del]

text \<open>
  Floating point. A float is modelled by the real number it denotes. \<^verbatim>\<open>int(x)\<close> on a
  float truncates that number towards zero, and the comparison of an integer with a float
  compares the two numbers; neither rounds. Rounding happens in the true division
  \<^verbatim>\<open>a / b\<close> of two integers, whose result depends on the float format of the platform.
  That division is therefore a parameter of the receiver: \<open>fdiv a b\<close> is the float that
  \<^verbatim>\<open>a / b\<close> evaluates to for \<open>b \<noteq> 0\<close>, or \<open>None\<close> where Python raises OverflowError
  because the quotient is too large for a float.
\<close>

type_synonym float_div = "int \<Rightarrow> int \<Rightarrow> real option"

definition py_int :: "real \<Rightarrow> int" where
  "py_int x = (if 0 \<le> x then \<lfloor>x\<rfloor> else \<lceil>x\<rceil>)"

text \<open>The binary digits of a natural number, most significant first; \<open>''0''\<close> for 0.\<close>

function bin_digits :: "nat \<Rightarrow> string" where
  "bin_digits n =
     (if n < 2 then [if n = 0 then CHR ''0'' else CHR ''1'']
      else bin_digits (n div 2) @ [if n mod 2 = 0 then CHR ''0'' else CHR ''1''])"
  by pat_completeness auto
termination
  by (relation "measure id") auto

declare bin_digits.simps [simp del]

text \<open>\<^verbatim>\<open>bin(code)\<close>: \<^verbatim>\<open>'0b101'\<close>, and \<^verbatim>\<open>'-0b101'\<close> for a negative code.\<close>

definition py_bin :: "int \<Rightarrow> string" where
  "py_bin n =
     (if n < 0 then ''-0b'' @ bin_digits (nat (- n))
      else ''0b'' @ bin_digits (nat n))"

subsection \<open>The device\<close>

datatype pin_mode = PIN_OUT | PIN_IN_PULL_DOWN

text \<open>A configured pin: its number, its mode, and whether an edge handler is registered.\<close>

record pin =
  pin_id :: int
  mode :: pin_mode
  irq_handler :: bool

definition Pin :: "int \<Rightarrow> pin_mode \<Rightarrow> pin" where
  "Pin g m = \<lparr>pin_id = g, mode = m, irq_handler = False\<rparr>"

record rf_device =
  gpio :: int
  tx_enabled :: bool
  tx_proto :: int
  tx_pulselength :: int
  tx_repeat :: int
  tx_length :: int
  rx_enabled :: bool
  rx_tolerance :: int
  rx_timings :: "int list"
  rx_last_timestamp :: int
  rx_change_count :: int
  rx_repeat_count :: int
  rx_code :: "int option"
  rx_code_timestamp :: "int option"
  rx_proto :: int
  rx_repeat :: int
  rx_bitlength :: "int option"
  rx_pulselength :: "int option"
  tx_pin :: "pin option"
  rx_pin :: "pin option"

text \<open>
  \<^verbatim>\<open>RFDevice.__init__\<close>. A pulse length override that is \<^verbatim>\<open>None\<close> or 0 is falsy and
  the protocol's own pulse length is looked up, which raises for an id outside the table and
  for id 0.
\<close>

definition RFDevice_init ::
  "int \<Rightarrow> int \<Rightarrow> int option \<Rightarrow> int \<Rightarrow> int \<Rightarrow> int \<Rightarrow> py_error + rf_device" where
  "RFDevice_init g proto pl rep len tol =
     (case (if pl \<noteq> None \<and> pl \<noteq> Some 0 then Inr (the pl)
            else (case py_getitem Protocols PROTOCOLS proto of
                    Inl e \<Rightarrow> Inl e
                  | Inr None \<Rightarrow> Inl AttributeError
                  | Inr (Some p) \<Rightarrow> Inr (pulselength p))) of
        Inl e \<Rightarrow> Inl e
      | Inr plen \<Rightarrow>
          Inr \<lparr>gpio = g, tx_enabled = False, tx_proto = proto, tx_pulselength = plen,
               tx_repeat = rep, tx_length = len, rx_enabled = False, rx_tolerance = tol,
               rx_timings = replicate (nat (MAX_CHANGES + 1)) 0,
               rx_last_timestamp = 0, rx_change_count = 0, rx_repeat_count = 0,
               rx_code = None, rx_code_timestamp = None,
               rx_proto = proto, rx_repeat = rep,
               rx_bitlength = None, rx_pulselength = None,
               tx_pin = None, rx_pin = None\<rparr>)"

subsection \<open>Enabling and disabling the two roles\<close>

definition enable_tx :: "rf_device \<Rightarrow> bool \<times> rf_device" where
  "enable_tx dev =
     (if rx_enabled dev then (False, dev)
      else if \<not> tx_enabled dev
           then (True, dev\<lparr>tx_enabled := True, tx_pin := Some (Pin (gpio dev) PIN_OUT)\<rparr>)
           else (True, dev))"

definition disable_tx :: "rf_device \<Rightarrow> bool \<times> rf_device" where
  "disable_tx dev =
     (if tx_enabled dev
      then (True, dev\<lparr>tx_pin := Some (Pin (gpio dev) PIN_IN_PULL_DOWN), tx_enabled := False\<rparr>)
      else (True, dev))"

definition enable_rx :: "rf_device \<Rightarrow> bool \<times> rf_device" where
  "enable_rx dev =
     (if tx_enabled dev then (False, dev)
      else if \<not> rx_enabled dev
           then (True, dev\<lparr>rx_enabled := True,
                           rx_pin := Some ((Pin (gpio dev) PIN_IN_PULL_DOWN)\<lparr>irq_handler := True\<rparr>)\<rparr>)
           else (True, dev))"

definition disable_rx :: "rf_device \<Rightarrow> bool \<times> rf_device" where
  "disable_rx dev =
     (if rx_enabled dev
      then (True, dev\<lparr>rx_pin := map_option (\<lambda>p. p\<lparr>irq_handler := False\<rparr>) (rx_pin dev),
                      rx_enabled := False\<rparr>)
      else (True, dev))"

text \<open>A call of one of the four role methods, and a sequence of such calls on one device.\<close>

datatype role_call = Enable_tx | Disable_tx | Enable_rx | Disable_rx

fun role_step :: "role_call \<Rightarrow> rf_device \<Rightarrow> bool \<times> rf_device" where
  "role_step Enable_tx dev = enable_tx dev"
| "role_step Disable_tx dev = disable_tx dev"
| "role_step Enable_rx dev = enable_rx dev"
| "role_step Disable_rx dev = disable_rx dev"

fun role_calls :: "role_call list \<Rightarrow> rf_device \<Rightarrow> rf_device" where
  "role_calls [] dev = dev"
| "role_calls (c # cs) dev = role_calls cs (snd (role_step c dev))"

subsection \<open>The transmitter\<close>

text \<open>
  What the pin does during a send: each event is a level and the time in microseconds it
  is held (\<^verbatim>\<open>tx_pin.high(); _sleep(d)\<close> is \<open>(True, d)\<close>). A transmit method returns
  the value it returns (or the exception it raises) and the events it emitted until then.
\<close>

type_synonym pin_event = "bool \<times> int"

type_synonym tx_result = "(py_error + bool) \<times> pin_event list"

text \<open>\<^verbatim>\<open>if not first: return False\<close> followed by the rest of the method.\<close>

definition tx_then :: "tx_result \<Rightarrow> tx_result \<Rightarrow> tx_result" where
  "tx_then first rest =
     (if fst first = Inr True then (fst rest, snd first @ snd rest)
      else (case fst first of Inl e \<Rightarrow> (Inl e, snd first) | Inr _ \<Rightarrow> (Inr False, snd first)))"

definition tx_waveform :: "rf_device \<Rightarrow> int \<Rightarrow> int \<Rightarrow> tx_result" where
  "tx_waveform dev highpulses lowpulses =
     (if \<not> tx_enabled dev then (Inr False, [])
      else (Inr True,
            [(True, highpulses * tx_pulselength dev * SCALE_TIME_US),
             (False, lowpulses * tx_pulselength dev * SCALE_TIME_US)]))"

text \<open>\<^verbatim>\<open>PROTOCOLS[self.tx_proto]\<close> followed by an attribute access.\<close>

definition tx_protocol :: "rf_device \<Rightarrow> py_error + protocol" where
  "tx_protocol dev =
     (case py_getitem Protocols PROTOCOLS (tx_proto dev) of
        Inl e \<Rightarrow> Inl e
      | Inr None \<Rightarrow> Inl AttributeError
      | Inr (Some p) \<Rightarrow> Inr p)"

definition tx_l0 :: "rf_device \<Rightarrow> tx_result" where
  "tx_l0 dev =
     (if \<not> (0 < tx_proto dev \<and> tx_proto dev < int (length PROTOCOLS)) then (Inr False, [])
      else (case tx_protocol dev of
              Inl e \<Rightarrow> (Inl e, [])
            | Inr p \<Rightarrow> tx_waveform dev (zero_high p) (zero_low p)))"

definition tx_l1 :: "rf_device \<Rightarrow> tx_result" where
  "tx_l1 dev =
     (if \<not> (0 < tx_proto dev \<and> tx_proto dev < int (length PROTOCOLS)) then (Inr False, [])
      else (case tx_protocol dev of
              Inl e \<Rightarrow> (Inl e, [])
            | Inr p \<Rightarrow> tx_waveform dev (one_high p) (one_low p)))"

definition tx_sync :: "rf_device \<Rightarrow> tx_result" where
  "tx_sync dev =
     (if \<not> (0 < tx_proto dev \<and> tx_proto dev < int (length PROTOCOLS)) then (Inr False, [])
      else (case tx_protocol dev of
              Inl e \<Rightarrow> (Inl e, [])
            | Inr p \<Rightarrow> tx_waveform dev (sync_high p) (sync_low p)))"

text \<open>The inner loop of \<^verbatim>\<open>tx_bin\<close>: \<^verbatim>\<open>for byte in range(0, self.tx_length)\<close>, over the
  indices still to visit.\<close>

fun tx_bin_bits :: "rf_device \<Rightarrow> string \<Rightarrow> int list \<Rightarrow> tx_result" where
  "tx_bin_bits dev rawcode [] = (Inr True, [])"
| "tx_bin_bits dev rawcode (byte # rest) =
     (case py_getitem Rawcode rawcode byte of
        Inl e \<Rightarrow> (Inl e, [])
      | Inr c \<Rightarrow>
          tx_then (if c = CHR ''0'' then tx_l0 dev else tx_l1 dev)
                  (tx_bin_bits dev rawcode rest))"

text \<open>One pass of the outer loop body of \<^verbatim>\<open>tx_bin\<close>.\<close>

definition tx_bin_frame :: "rf_device \<Rightarrow> string \<Rightarrow> tx_result" where
  "tx_bin_frame dev rawcode =
     tx_then (if tx_proto dev = 6 then tx_sync dev else (Inr True, []))
       (tx_then (tx_bin_bits dev rawcode (py_range 0 (tx_length dev) 1))
                (tx_sync dev))"

text \<open>The outer loop, \<^verbatim>\<open>for _ in range(0, self.tx_repeat)\<close>, by the number of passes left.\<close>

fun tx_bin_repeat :: "rf_device \<Rightarrow> string \<Rightarrow> nat \<Rightarrow> tx_result" where
  "tx_bin_repeat dev rawcode 0 = (Inr True, [])"
| "tx_bin_repeat dev rawcode (Suc n) =
     tx_then (tx_bin_frame dev rawcode) (tx_bin_repeat dev rawcode n)"

definition tx_bin :: "rf_device \<Rightarrow> string \<Rightarrow> tx_result" where
  "tx_bin dev rawcode = tx_bin_repeat dev rawcode (nat (tx_repeat dev))"

text \<open>The protocol-6 loop of \<^verbatim>\<open>tx_code\<close>, with \<^verbatim>\<open>nexacode\<close> as accumulator.\<close>

fun nexa_expand :: "string \<Rightarrow> string \<Rightarrow> string" where
  "nexa_expand nexacode [] = nexacode"
| "nexa_expand nexacode (b # bs) =
     (let n1 = (if b = CHR ''0'' then nexacode @ ''01'' else nexacode);
          n2 = (if b = CHR ''1'' then n1 @ ''10'' else n1)
      in nexa_expand n2 bs)"

text \<open>\<^verbatim>\<open>'0'*(self.tx_length + 0 - len(bin(code)[2:])) + bin(code)[2:]\<close>; a string times a
  negative number is empty.\<close>

definition tx_rawcode :: "rf_device \<Rightarrow> int \<Rightarrow> string" where
  "tx_rawcode dev code =
     replicate (nat (tx_length dev + 0 - int (length (drop 2 (py_bin code))))) CHR ''0''
       @ drop 2 (py_bin code)"

definition tx_code :: "int \<Rightarrow> rf_device \<Rightarrow> tx_result \<times> rf_device" where
  "tx_code code dev =
     (let rawcode = tx_rawcode dev code
      in if tx_proto dev = 6
         then (let nexacode = nexa_expand [] rawcode;
                   dev' = dev\<lparr>tx_length := 64\<rparr>
               in (tx_bin dev' nexacode, dev'))
         else (tx_bin dev rawcode, dev))"

subsection \<open>The receiver\<close>

text \<open>
  One template test of the decoder,
  \<^verbatim>\<open>abs(t[i] - delay * high) < delay_tolerance and abs(t[i+1] - delay * low) < delay_tolerance\<close>:
  the second slot is read only when the first comparison holds.
\<close>

definition rx_match ::
  "int list \<Rightarrow> int \<Rightarrow> int \<Rightarrow> real \<Rightarrow> int \<Rightarrow> int \<Rightarrow> py_error + bool" where
  "rx_match timings i delay delay_tolerance high low =
     (case py_getitem Timings timings i of
        Inl e \<Rightarrow> Inl e
      | Inr a \<Rightarrow>
          if real_of_int \<bar>a - delay * high\<bar> < delay_tolerance
          then (case py_getitem Timings timings (i + 1) of
                  Inl e \<Rightarrow> Inl e
                | Inr b \<Rightarrow> Inr (real_of_int \<bar>b - delay * low\<bar> < delay_tolerance))
          else Inr False)"

text \<open>The loop of \<^verbatim>\<open>_rx_waveform\<close> over the indices still to visit; \<open>Inr None\<close> is the
  \<^verbatim>\<open>return False\<close> inside the loop, \<open>Inr (Some code)\<close> the loop running to its end.\<close>

fun rx_waveform_loop ::
  "protocol \<Rightarrow> int list \<Rightarrow> int \<Rightarrow> real \<Rightarrow> int list \<Rightarrow> int \<Rightarrow> py_error + int option" where
  "rx_waveform_loop p timings delay delay_tolerance [] code = Inr (Some code)"
| "rx_waveform_loop p timings delay delay_tolerance (i # rest) code =
     (case rx_match timings i delay delay_tolerance (zero_high p) (zero_low p) of
        Inl e \<Rightarrow> Inl e
      | Inr True \<Rightarrow> rx_waveform_loop p timings delay delay_tolerance rest (push_bit 1 code)
      | Inr False \<Rightarrow>
          (case rx_match timings i delay delay_tolerance (one_high p) (one_low p) of
             Inl e \<Rightarrow> Inl e
           | Inr True \<Rightarrow>
               rx_waveform_loop p timings delay delay_tolerance rest (push_bit 1 code OR 1)
           | Inr False \<Rightarrow> Inr None))"

text \<open>\<^verbatim>\<open>_rx_waveform\<close>: the value returned and the device after the call.\<close>

definition rx_waveform ::
  "float_div \<Rightarrow> int \<Rightarrow> int \<Rightarrow> int \<Rightarrow> rf_device \<Rightarrow> py_error + (bool \<times> rf_device)" where
  "rx_waveform fdiv pnum change_count timestamp dev =
     (case py_getitem Timings (rx_timings dev) 0 of
        Inl e \<Rightarrow> Inl e
      | Inr t0 \<Rightarrow>
     (case py_getitem Protocols PROTOCOLS pnum of
        Inl e \<Rightarrow> Inl e
      | Inr None \<Rightarrow> Inl AttributeError
      | Inr (Some p) \<Rightarrow>
          if sync_low p = 0 then Inl ZeroDivisionError
          else
            (case fdiv t0 (sync_low p) of
               None \<Rightarrow> Inl OverflowError
             | Some ratio \<Rightarrow>
            (let delay = py_int ratio
             in (case fdiv (delay * rx_tolerance dev) 100 of
                   None \<Rightarrow> Inl OverflowError
                 | Some delay_tolerance \<Rightarrow>
                (case rx_waveform_loop p (rx_timings dev) delay delay_tolerance
                        (py_range 1 change_count 2) 0 of
                   Inl e \<Rightarrow> Inl e
                 | Inr None \<Rightarrow> Inr (False, dev)
                 | Inr (Some code) \<Rightarrow>
                     if rx_change_count dev > 6 \<and> code \<noteq> 0
                     then Inr (True, dev\<lparr>rx_code := Some code,
                                         rx_code_timestamp := Some timestamp\<rparr>)
                     else Inr (False, dev)))))))"

text \<open>The block of \<^verbatim>\<open>rx_callback\<close> under \<^verbatim>\<open>if duration > THRESHOLD_SYNC\<close>.\<close>

definition rx_callback_sync :: "float_div \<Rightarrow> int \<Rightarrow> rf_device \<Rightarrow> py_error + rf_device" where
  "rx_callback_sync fdiv timestamp dev =
     (let d0 = dev\<lparr>rx_repeat_count := rx_repeat_count dev + 1,
                   rx_change_count := rx_change_count dev - 1\<rparr>
      in (case (if rx_change_count d0 > 1
                then (case rx_waveform fdiv (rx_proto d0) (rx_change_count d0) timestamp d0 of
                        Inl e \<Rightarrow> Inl e
                      | Inr r \<Rightarrow> Inr (snd r))
                else Inr d0) of
            Inl e \<Rightarrow> Inl e
          | Inr d1 \<Rightarrow> Inr (d1\<lparr>rx_change_count := 0\<rparr>)))"

text \<open>\<^verbatim>\<open>rx_callback\<close>, with the clock value it reads as argument.\<close>

definition rx_callback :: "float_div \<Rightarrow> int \<Rightarrow> rf_device \<Rightarrow> py_error + rf_device" where
  "rx_callback fdiv timestamp dev =
     (let duration = timestamp - rx_last_timestamp dev
      in if duration > THRESHOLD_TICK
         then (case (if duration > THRESHOLD_SYNC then rx_callback_sync fdiv timestamp dev
                     else Inr dev) of
                 Inl e \<Rightarrow> Inl e
               | Inr d1 \<Rightarrow>
                   (let d2 = (if rx_change_count d1 \<ge> MAX_CHANGES
                              then d1\<lparr>rx_change_count := 0, rx_repeat_count := 0\<rparr>
                              else d1)
                    in (case py_setitem Timings (rx_timings d2) (rx_change_count d2) duration of
                          Inl e \<Rightarrow> Inl e
                        | Inr ts \<Rightarrow>
                            Inr (d2\<lparr>rx_timings := ts,
                                    rx_change_count := rx_change_count d2 + 1,
                                    rx_last_timestamp := timestamp\<rparr>))))
         else Inr (dev\<lparr>rx_last_timestamp := timestamp\<rparr>))"

subsection \<open>Sequences of edges\<close>

text \<open>The handler invoked once per edge, with the clock values given; an exception ends
  the run.\<close>

fun rx_edges :: "float_div \<Rightarrow> int list \<Rightarrow> rf_device \<Rightarrow> py_error + rf_device" where
  "rx_edges fdiv [] dev = Inr dev"
| "rx_edges fdiv (t # ts) dev =
     (case rx_callback fdiv t dev of Inl e \<Rightarrow> Inl e | Inr d \<Rightarrow> rx_edges fdiv ts d)"

text \<open>The same run given by the intervals between the edges: each edge arrives the given
  number of microseconds after the one before, so the handler computes exactly that duration.\<close>

fun rx_intervals :: "float_div \<Rightarrow> int list \<Rightarrow> rf_device \<Rightarrow> py_error + rf_device" where
  "rx_intervals fdiv [] dev = Inr dev"
| "rx_intervals fdiv (d # ds) dev =
     (case rx_callback fdiv (rx_last_timestamp dev + d) dev of
        Inl e \<Rightarrow> Inl e
      | Inr dev' \<Rightarrow> rx_intervals fdiv ds dev')"

text \<open>The intervals of a transmitted pulse train: the hold time of each level, the last
  low level included (it ends with the next edge on the line).\<close>

definition tx_intervals :: "tx_result \<Rightarrow> int list" where
  "tx_intervals r = map snd (snd r)"

subsection \<open>Notions used to state the properties\<close>

text \<open>The device that \<^verbatim>\<open>rf_comm_transmitt.py\<close> constructs, \<^verbatim>\<open>RFDevice(6, 1)\<close>, before
  any role is enabled.\<close>

definition demo_device :: rf_device where
  "demo_device =
     \<lparr>gpio = 6, tx_enabled = False, tx_proto = 1, tx_pulselength = 350,
      tx_repeat = 10, tx_length = 24, rx_enabled = False, rx_tolerance = 70,
      rx_timings = replicate 68 0,
      rx_last_timestamp = 0, rx_change_count = 0, rx_repeat_count = 0,
      rx_code = None, rx_code_timestamp = None,
      rx_proto = 1, rx_repeat = 10,
      rx_bitlength = None, rx_pulselength = None,
      tx_pin = None, rx_pin = None\<rparr>"

text \<open>The buffer has its \<^verbatim>\<open>MAX_CHANGES + 1\<close> slots and the change counter points into it.\<close>

definition rx_buffer_ok :: "rf_device \<Rightarrow> bool" where
  "rx_buffer_ok dev \<longleftrightarrow>
     length (rx_timings dev) = nat (MAX_CHANGES + 1) \<and>
     0 \<le> rx_change_count dev \<and> rx_change_count dev \<le> MAX_CHANGES"

text \<open>
  The frame decoder as the specification words it, for a given timing unit and tolerance
  window: a pair of slots matching a template, every pair of the frame matching the zero or
  the one template, and the integer the matched pairs spell.
\<close>

definition pair_matches :: "rf_device \<Rightarrow> int \<Rightarrow> real \<Rightarrow> int \<Rightarrow> int \<Rightarrow> int \<Rightarrow> bool" where
  "pair_matches dev delay window i high low \<longleftrightarrow>
     real_of_int \<bar>rx_timings dev ! nat i - delay * high\<bar> < window \<and>
     real_of_int \<bar>rx_timings dev ! nat (i + 1) - delay * low\<bar> < window"

definition pair_is_zero :: "rf_device \<Rightarrow> protocol \<Rightarrow> int \<Rightarrow> real \<Rightarrow> int \<Rightarrow> bool" where
  "pair_is_zero dev p delay window i = pair_matches dev delay window i (zero_high p) (zero_low p)"

definition pair_is_one :: "rf_device \<Rightarrow> protocol \<Rightarrow> int \<Rightarrow> real \<Rightarrow> int \<Rightarrow> bool" where
  "pair_is_one dev p delay window i = pair_matches dev delay window i (one_high p) (one_low p)"

definition frame_matches :: "rf_device \<Rightarrow> protocol \<Rightarrow> int \<Rightarrow> real \<Rightarrow> int \<Rightarrow> bool" where
  "frame_matches dev p delay window n =
     list_all (\<lambda>i. pair_is_zero dev p delay window i \<or> pair_is_one dev p delay window i)
       (py_range 1 n 2)"

definition frame_value :: "rf_device \<Rightarrow> protocol \<Rightarrow> int \<Rightarrow> real \<Rightarrow> int \<Rightarrow> int" where
  "frame_value dev p delay window n =
     foldl (\<lambda>code i. if pair_is_zero dev p delay window i then 2 * code else 2 * code + 1) 0
       (py_range 1 n 2)"

text \<open>
  Division without rounding. Every binary floating-point division agrees with it where the
  exact quotient is a float, as it is in the concrete runs below (their quotients are
  integers).
\<close>

definition exact_div :: float_div where
  "exact_div a b = Some (real_of_int a / real_of_int b)"

text \<open>
  What the round trip needs of the platform's division, and what a correctly rounded
  division in a binary format with at least 24 bits of precision provides: for a positive
  divisor, and dividend and divisor below \<open>2 ^ 24\<close> in magnitude, the quotient is a float
  (no OverflowError); it lies on the same side of every integer below \<open>2 ^ 24\<close> as the
  exact quotient does, since such integers are floats and rounding is monotone; and it is
  positive when the exact quotient is.
\<close>

definition float_division :: "float_div \<Rightarrow> bool" where
  "float_division fdiv \<longleftrightarrow>
     (\<forall>a b. 0 < b \<and> b < 2 ^ 24 \<and> \<bar>a\<bar> < 2 ^ 24 \<longrightarrow>
        (\<exists>w. fdiv a b = Some w
           \<and> (\<forall>i. \<bar>i\<bar> < 2 ^ 24 \<longrightarrow>
                 (a \<le> i * b \<longrightarrow> w \<le> real_of_int i) \<and> (i * b \<le> a \<longrightarrow> real_of_int i \<le> w))
           \<and> (0 < a \<longrightarrow> 0 < w)))"

text \<open>
  The pulse train a frame is expected to be: per bit the zero or the one waveform, then the
  closing sync waveform, every hold time being multiplier times pulse length times
  \<^verbatim>\<open>SCALE_TIME_US\<close>.
\<close>

definition wave_events :: "rf_device \<Rightarrow> int \<Rightarrow> int \<Rightarrow> pin_event list" where
  "wave_events dev high low =
     [(True, high * tx_pulselength dev * SCALE_TIME_US),
      (False, low * tx_pulselength dev * SCALE_TIME_US)]"

definition bit_events :: "rf_device \<Rightarrow> protocol \<Rightarrow> char \<Rightarrow> pin_event list" where
  "bit_events dev p c =
     (if c = CHR ''0'' then wave_events dev (zero_high p) (zero_low p)
      else wave_events dev (one_high p) (one_low p))"

definition frame_events :: "rf_device \<Rightarrow> protocol \<Rightarrow> string \<Rightarrow> pin_event list" where
  "frame_events dev p bits =
     concat (map (bit_events dev p) bits) @ wave_events dev (sync_high p) (sync_low p)"

text \<open>The integer a string of binary digits spells, most significant digit first.\<close>

definition bits_value :: "string \<Rightarrow> int" where
  "bits_value bits = foldl (\<lambda>code c. if c = CHR ''0'' then 2 * code else 2 * code + 1) 0 bits"

text \<open>
  A protocol whose pulse train the edge handler can frame: with the protocol's own pulse
  length, the low part of the sync waveform is longer than \<^verbatim>\<open>THRESHOLD_SYNC\<close> (and at most a
  tenth of a second), every other pulse lies between the two thresholds, and the two bit
  waveforms differ in their high part.
\<close>

definition framed_protocol :: "protocol \<Rightarrow> bool" where
  "framed_protocol p \<longleftrightarrow>
     0 < sync_low p \<and>
     THRESHOLD_SYNC < sync_low p * (pulselength p * SCALE_TIME_US) \<and>
     sync_low p * (pulselength p * SCALE_TIME_US) \<le> 100000 \<and>
     list_all (\<lambda>m. THRESHOLD_TICK < m * (pulselength p * SCALE_TIME_US) \<and>
                   m * (pulselength p * SCALE_TIME_US) \<le> THRESHOLD_SYNC)
              [zero_high p, zero_low p, one_high p, one_low p, sync_high p] \<and>
     zero_high p \<noteq> one_high p"

text \<open>The fresh device after one edge 20000 microseconds after time 0, as the handler
  leaves it.\<close>

definition demo_after_sync :: rf_device where
  "demo_after_sync =
     demo_device\<lparr>rx_timings := (rx_timings demo_device)[0 := 20000],
                 rx_change_count := 1, rx_repeat_count := 1, rx_last_timestamp := 20000\<rparr>"

text \<open>The demo device after \<^verbatim>\<open>enable_tx()\<close>, as the demo script uses it.\<close>

definition demo_tx_device :: rf_device where
  "demo_tx_device = demo_device\<lparr>tx_enabled := True, tx_pin := Some (Pin 6 PIN_OUT)\<rparr>"

text \<open>\<^verbatim>\<open>RFDevice(6, 6, tx_length=len)\<close> after \<^verbatim>\<open>enable_tx()\<close>: a protocol-6 transmitter.\<close>

definition nexa_device :: "int \<Rightarrow> rf_device" where
  "nexa_device len =
     demo_device\<lparr>tx_enabled := True, tx_proto := 6, tx_pulselength := 200, tx_length := len,
                 rx_proto := 6, tx_pin := Some (Pin 6 PIN_OUT)\<rparr>"

text \<open>A receiver on protocol 1 holding one captured frame: the low part of a sync (32550),
  the three bits 1, 0, 1 and the high part of the next sync, seven counted changes.\<close>

definition demo_frame_device :: rf_device where
  "demo_frame_device =
     demo_device\<lparr>rx_timings := [32550, 3150, 1050, 1050, 3150, 3150, 1050, 1050] @ replicate 60 0,
                 rx_change_count := 7, rx_repeat_count := 2, rx_last_timestamp := 50000\<rparr>"

text \<open>The fresh device after 67 data edges 500 microseconds apart, and after one more.\<close>

definition demo_full_buffer :: rf_device where
  "demo_full_buffer =
     demo_device\<lparr>rx_timings := replicate 67 500 @ [0],
                 rx_change_count := 67, rx_last_timestamp := 33500\<rparr>"

definition demo_after_overflow :: rf_device where
  "demo_after_overflow =
     demo_device\<lparr>rx_timings := replicate 67 500 @ [0],
                 rx_change_count := 1, rx_repeat_count := 0, rx_last_timestamp := 34000\<rparr>"

text \<open>
  The intervals between the edges of one transmitted frame, for a transmitter that uses the
  protocol's own pulse length: the timing unit, the two intervals of a bit, and the
  intervals of the bits followed by the two of the sync waveform.
\<close>

definition unit_us :: "protocol \<Rightarrow> int" where
  "unit_us p = pulselength p * SCALE_TIME_US"

definition bit_intervals :: "protocol \<Rightarrow> char \<Rightarrow> int list" where
  "bit_intervals p c =
     (if c = CHR ''0'' then [zero_high p * unit_us p, zero_low p * unit_us p]
      else [one_high p * unit_us p, one_low p * unit_us p])"

definition frame_intervals :: "protocol \<Rightarrow> string \<Rightarrow> int list" where
  "frame_intervals p bits =
     concat (map (bit_intervals p) bits) @ [sync_high p * unit_us p, sync_low p * unit_us p]"

text \<open>A buffer in order whose slots all hold intervals between 0 and a tenth of a second.\<close>

definition rx_bounded :: "rf_device \<Rightarrow> bool" where
  "rx_bounded dev \<longleftrightarrow>
     rx_buffer_ok dev \<and> list_all (\<lambda>t. 0 \<le> t \<and> t \<le> 100000) (rx_timings dev)"

text \<open>A receiver that has just seen the sync of the protocol: slot 0 holds the low part of
  the sync waveform and the change counter is 1.\<close>

definition rx_synced :: "protocol \<Rightarrow> rf_device \<Rightarrow> bool" where
  "rx_synced p dev \<longleftrightarrow>
     rx_bounded dev \<and> rx_change_count dev = 1 \<and> rx_timings dev ! 0 = sync_low p * unit_us p"

text \<open>\<^verbatim>\<open>RFDevice(6, 4)\<close>: a fresh device on protocol 4.\<close>

definition demo4_device :: rf_device where
  "demo4_device = demo_device\<lparr>tx_proto := 4, tx_pulselength := 380, rx_proto := 4\<rparr>"

section \<open>Properties\<close>

subsection \<open>Roles\<close>

lemma role_step_exclusive:
  "\<not> (tx_enabled dev \<and> rx_enabled dev) \<Longrightarrow>
   \<not> (tx_enabled (snd (role_step c dev)) \<and> rx_enabled (snd (role_step c dev)))"
  by (cases c) (auto simp: enable_tx_def disable_tx_def enable_rx_def disable_rx_def)

lemma role_calls_exclusive:
  "\<not> (tx_enabled dev \<and> rx_enabled dev) \<Longrightarrow>
   \<not> (tx_enabled (role_calls cs dev) \<and> rx_enabled (role_calls cs dev))"
proof (induction cs arbitrary: dev)
  case Nil
  then show ?case by simp
next
  case (Cons c cs)
  from Cons.prems
  have "\<not> (tx_enabled (snd (role_step c dev)) \<and> rx_enabled (snd (role_step c dev)))"
    by (rule role_step_exclusive)
  then show ?case using Cons.IH by simp
qed

lemma RFDevice_init_flags:
  "RFDevice_init g proto pl rep len tol = Inr dev \<Longrightarrow> \<not> tx_enabled dev \<and> \<not> rx_enabled dev"
  by (auto simp: RFDevice_init_def split: if_splits sum.splits option.splits)

lemma RFDevice_init_demo: "RFDevice_init 6 1 None 10 24 70 = Inr demo_device"
  by (simp add: RFDevice_init_def py_getitem_def py_index_def PROTOCOLS_def Protocol_def
      MAX_CHANGES_def demo_device_def)

text \<open>
  Claim C9. Starting from a freshly constructed device, after any sequence of
  \<^verbatim>\<open>enable_tx\<close>, \<^verbatim>\<open>disable_tx\<close>, \<^verbatim>\<open>enable_rx\<close>, \<^verbatim>\<open>disable_rx\<close> calls the two role
  flags are never both true; and an enable call made while the opposite role is enabled
  returns \<^verbatim>\<open>False\<close> and leaves the device as it was.
\<close>

theorem roles_mutually_exclusive:
  "(RFDevice_init g proto pl rep len tol = Inr dev \<longrightarrow>
      \<not> (tx_enabled (role_calls cs dev) \<and> rx_enabled (role_calls cs dev)))
   \<and> (rx_enabled dev' \<longrightarrow> enable_tx dev' = (False, dev'))
   \<and> (tx_enabled dev'' \<longrightarrow> enable_rx dev'' = (False, dev''))"
proof (intro conjI impI)
  assume "RFDevice_init g proto pl rep len tol = Inr dev"
  then have "\<not> (tx_enabled dev \<and> rx_enabled dev)"
    using RFDevice_init_flags by blast
  then show "\<not> (tx_enabled (role_calls cs dev) \<and> rx_enabled (role_calls cs dev))"
    by (rule role_calls_exclusive)
next
  assume "rx_enabled dev'"
  then show "enable_tx dev' = (False, dev')" by (simp add: enable_tx_def)
next
  assume "tx_enabled dev''"
  then show "enable_rx dev'' = (False, dev'')" by (simp add: enable_rx_def)
qed

theorem roles_mutually_exclusive_witness:
  "RFDevice_init 6 1 None 10 24 70 = Inr demo_device
   \<and> \<not> (tx_enabled (role_calls [Enable_tx, Enable_rx, Disable_tx, Enable_rx, Enable_tx] demo_device)
        \<and> rx_enabled (role_calls [Enable_tx, Enable_rx, Disable_tx, Enable_rx, Enable_tx] demo_device))
   \<and> rx_enabled (snd (enable_rx demo_device))
   \<and> enable_tx (snd (enable_rx demo_device)) = (False, snd (enable_rx demo_device))
   \<and> tx_enabled (snd (enable_tx demo_device))
   \<and> enable_rx (snd (enable_tx demo_device)) = (False, snd (enable_tx demo_device))"
proof -
  have rx: "rx_enabled (snd (enable_rx demo_device))"
    by (simp add: enable_rx_def demo_device_def)
  have tx: "tx_enabled (snd (enable_tx demo_device))"
    by (simp add: enable_tx_def demo_device_def)
  show ?thesis
    using RFDevice_init_demo rx tx
      roles_mutually_exclusive [of 6 1 None 10 24 70 demo_device
        "[Enable_tx, Enable_rx, Disable_tx, Enable_rx, Enable_tx]"
        "snd (enable_rx demo_device)" "snd (enable_tx demo_device)"]
    by blast
qed

subsection \<open>The edge handler: noise and sync edges\<close>

text \<open>
  Claim C3, as amended. An edge whose interval is at most \<^verbatim>\<open>THRESHOLD_TICK\<close> leaves
  the change counter, the repeat counter, every slot of the buffer and the mailbox as they
  were, and raises nothing; the one field it writes is the last-edge timestamp, which becomes
  the timestamp of the noise edge.
\<close>

theorem rx_callback_noise:
  assumes "timestamp - rx_last_timestamp dev \<le> THRESHOLD_TICK"
  shows "rx_callback fdiv timestamp dev = Inr (dev\<lparr>rx_last_timestamp := timestamp\<rparr>)"
  using assms by (simp add: rx_callback_def Let_def)

theorem rx_callback_noise_witness:
  "100 - rx_last_timestamp demo_device \<le> THRESHOLD_TICK
   \<and> rx_callback exact_div 100 demo_device = Inr (demo_device\<lparr>rx_last_timestamp := 100\<rparr>)"
proof -
  have h: "100 - rx_last_timestamp demo_device \<le> THRESHOLD_TICK"
    by (simp add: demo_device_def THRESHOLD_TICK_def)
  show ?thesis using h rx_callback_noise [OF h] by simp
qed

text \<open>The claim as written fails: the noise edge at 100 microseconds moves the last-edge
  timestamp of the fresh device from 0 to 100.\<close>

theorem rx_callback_noise_counterexample:
  "100 - rx_last_timestamp demo_device \<le> THRESHOLD_TICK
   \<and> rx_callback exact_div 100 demo_device = Inr (demo_device\<lparr>rx_last_timestamp := 100\<rparr>)
   \<and> rx_last_timestamp (demo_device\<lparr>rx_last_timestamp := 100\<rparr>) \<noteq> rx_last_timestamp demo_device"
  by (simp add: rx_callback_def Let_def demo_device_def THRESHOLD_TICK_def)

lemma rx_waveform_fields:
  assumes "rx_waveform fdiv pnum cc ts dev = Inr (ok, d)"
  shows "rx_timings d = rx_timings dev \<and> rx_repeat_count d = rx_repeat_count dev
       \<and> rx_change_count d = rx_change_count dev \<and> rx_last_timestamp d = rx_last_timestamp dev
       \<and> rx_proto d = rx_proto dev \<and> rx_tolerance d = rx_tolerance dev"
  using assms by (auto simp: rx_waveform_def Let_def split: sum.splits option.splits if_splits)

lemma rx_callback_sync_eq:
  assumes "THRESHOLD_SYNC < timestamp - rx_last_timestamp dev" and "rx_timings dev \<noteq> []"
  shows "rx_callback fdiv timestamp dev =
    (if rx_change_count dev - 1 > 1
     then (case rx_waveform fdiv (rx_proto dev) (rx_change_count dev - 1) timestamp
                 (dev\<lparr>rx_repeat_count := rx_repeat_count dev + 1,
                      rx_change_count := rx_change_count dev - 1\<rparr>) of
             Inl e \<Rightarrow> Inl e
           | Inr r \<Rightarrow>
               Inr ((snd r)\<lparr>rx_timings := (rx_timings dev)[0 := timestamp - rx_last_timestamp dev],
                            rx_change_count := 1, rx_last_timestamp := timestamp\<rparr>))
     else Inr (dev\<lparr>rx_repeat_count := rx_repeat_count dev + 1,
                   rx_timings := (rx_timings dev)[0 := timestamp - rx_last_timestamp dev],
                   rx_change_count := 1, rx_last_timestamp := timestamp\<rparr>))"
proof -
  have tick: "timestamp - rx_last_timestamp dev > THRESHOLD_TICK"
    using assms(1) by (simp add: THRESHOLD_SYNC_def THRESHOLD_TICK_def)
  have len: "0 < length (rx_timings dev)" using assms(2) by simp
  show ?thesis
  proof (cases "rx_change_count dev - 1 > 1")
    case False
    then show ?thesis using tick assms(1) len
      by (simp add: rx_callback_def rx_callback_sync_def Let_def MAX_CHANGES_def
          py_setitem_def py_index_def)
  next
    case True
    show ?thesis
    proof (cases "rx_waveform fdiv (rx_proto dev) (rx_change_count dev - 1) timestamp
                 (dev\<lparr>rx_repeat_count := rx_repeat_count dev + 1,
                      rx_change_count := rx_change_count dev - 1\<rparr>)")
      case (Inl e)
      then show ?thesis using True tick assms(1)
        by (simp add: rx_callback_def rx_callback_sync_def Let_def)
    next
      case (Inr r)
      obtain ok d where r: "r = (ok, d)" by (cases r)
      have f: "rx_timings d = rx_timings dev"
        using rx_waveform_fields[OF Inr[unfolded r]] by simp
      show ?thesis using True tick assms(1) Inr r f len
        by (simp add: rx_callback_def rx_callback_sync_def Let_def MAX_CHANGES_def
          py_setitem_def py_index_def)
    qed
  qed
qed

lemma rx_callback_sync_result:
  assumes "THRESHOLD_SYNC < timestamp - rx_last_timestamp dev" and "rx_timings dev \<noteq> []"
    and "rx_callback fdiv timestamp dev = Inr dev'"
  shows "rx_change_count dev' = 1 \<and> rx_repeat_count dev' = rx_repeat_count dev + 1
       \<and> rx_timings dev' = (rx_timings dev)[0 := timestamp - rx_last_timestamp dev]
       \<and> rx_last_timestamp dev' = timestamp
       \<and> rx_proto dev' = rx_proto dev \<and> rx_tolerance dev' = rx_tolerance dev"
proof (cases "rx_change_count dev - 1 > 1")
  case False
  then show ?thesis using rx_callback_sync_eq[OF assms(1,2)] assms(3) by auto
next
  case True
  let ?d0 = "dev\<lparr>rx_repeat_count := rx_repeat_count dev + 1,
                   rx_change_count := rx_change_count dev - 1\<rparr>"
  from True rx_callback_sync_eq[OF assms(1,2)] assms(3)
  obtain r where r: "rx_waveform fdiv (rx_proto dev) (rx_change_count dev - 1) timestamp ?d0 = Inr r"
    and d: "dev' = (snd r)\<lparr>rx_timings := (rx_timings dev)[0 := timestamp - rx_last_timestamp dev],
                            rx_change_count := 1, rx_last_timestamp := timestamp\<rparr>"
    by (auto split: sum.splits)
  obtain ok d1 where r2: "r = (ok, d1)" by (cases r)
  from rx_waveform_fields[OF r[unfolded r2]] d r2 show ?thesis by simp
qed

text \<open>
  Claim C5, as amended. For every edge whose interval exceeds \<^verbatim>\<open>THRESHOLD_SYNC\<close> (on a
  device whose buffer is not empty), the handler adds one to the repeat counter, takes one
  off the change counter and runs the frame decoder exactly when the adjusted counter is
  greater than 1; an exception of the decoder is the handler's. When the handler returns,
  whatever the decoder decided, the interval of the sync edge is stored in slot 0 of the
  buffer, the change counter is 1 (not 0), the repeat counter is one more than before and the
  last-edge timestamp is the edge's.
\<close>

theorem rx_callback_sync_edge:
  assumes "THRESHOLD_SYNC < timestamp - rx_last_timestamp dev" and "rx_timings dev \<noteq> []"
  shows "rx_callback fdiv timestamp dev =
    (if rx_change_count dev - 1 > 1
     then (case rx_waveform fdiv (rx_proto dev) (rx_change_count dev - 1) timestamp
                 (dev\<lparr>rx_repeat_count := rx_repeat_count dev + 1,
                      rx_change_count := rx_change_count dev - 1\<rparr>) of
             Inl e \<Rightarrow> Inl e
           | Inr r \<Rightarrow>
               Inr ((snd r)\<lparr>rx_timings := (rx_timings dev)[0 := timestamp - rx_last_timestamp dev],
                            rx_change_count := 1, rx_last_timestamp := timestamp\<rparr>))
     else Inr (dev\<lparr>rx_repeat_count := rx_repeat_count dev + 1,
                   rx_timings := (rx_timings dev)[0 := timestamp - rx_last_timestamp dev],
                   rx_change_count := 1, rx_last_timestamp := timestamp\<rparr>))
   \<and> (\<forall>dev'. rx_callback fdiv timestamp dev = Inr dev' \<longrightarrow>
         rx_change_count dev' = 1 \<and> rx_repeat_count dev' = rx_repeat_count dev + 1
         \<and> rx_timings dev' = (rx_timings dev)[0 := timestamp - rx_last_timestamp dev]
         \<and> rx_last_timestamp dev' = timestamp)"
  using rx_callback_sync_eq[OF assms] rx_callback_sync_result[OF assms] by blast

theorem rx_callback_sync_edge_witness:
  "THRESHOLD_SYNC < 20000 - rx_last_timestamp demo_device \<and> rx_timings demo_device \<noteq> []
   \<and> rx_callback exact_div 20000 demo_device = Inr demo_after_sync
   \<and> rx_change_count demo_after_sync = 1"
proof -
  have h1: "THRESHOLD_SYNC < 20000 - rx_last_timestamp demo_device"
    by (simp add: demo_device_def THRESHOLD_SYNC_def)
  have h2: "rx_timings demo_device \<noteq> []"
    by (simp add: demo_device_def)
  have "rx_callback exact_div 20000 demo_device = Inr demo_after_sync"
    using rx_callback_sync_edge [OF h1 h2]
    by (simp add: demo_device_def demo_after_sync_def)
  then show ?thesis using h1 h2 rx_callback_sync_edge [OF h1 h2] by blast
qed

text \<open>The claim as written fails: after the sync edge the change counter of the fresh
  device is 1, and slot 0 of its buffer, 0 before, holds the 20000 microseconds of the edge.\<close>

theorem rx_callback_sync_edge_counterexample:
  "THRESHOLD_SYNC < 20000 - rx_last_timestamp demo_device
   \<and> rx_callback exact_div 20000 demo_device = Inr demo_after_sync
   \<and> rx_change_count demo_after_sync \<noteq> 0
   \<and> rx_timings demo_device ! 0 = 0
   \<and> rx_timings demo_after_sync ! 0 = 20000"
  by (simp add: rx_callback_def rx_callback_sync_def Let_def demo_device_def demo_after_sync_def
      THRESHOLD_SYNC_def THRESHOLD_TICK_def MAX_CHANGES_def py_setitem_def py_index_def)

subsection \<open>The tolerance window of the frame decoder\<close>

text \<open>
  Claim C4, as amended. In the decoder's template test, with the tolerance window
  \<open>delay * tolerance / 100\<close>, a pair of intervals matches a template exactly when both
  absolute deviations from the expected durations are strictly below the window: a
  deviation of exactly the window does not match, and neither does any larger one.
\<close>

theorem rx_match_tolerance:
  assumes "0 \<le> i" and "i + 1 < int (length timings)"
  shows "rx_match timings i delay (real_of_int (delay * tolerance) / 100) high low =
           Inr (\<bar>timings ! nat i - delay * high\<bar> * 100 < delay * tolerance
                \<and> \<bar>timings ! nat (i + 1) - delay * low\<bar> * 100 < delay * tolerance)"
proof -
  have cmp: "(real_of_int x < real_of_int (delay * tolerance) / 100)
             \<longleftrightarrow> (x * 100 < delay * tolerance)" for x :: int
  proof -
    have "(real_of_int x < real_of_int (delay * tolerance) / 100)
          \<longleftrightarrow> (real_of_int x * 100 < real_of_int (delay * tolerance))"
      by (simp add: field_simps)
    also have "\<dots> \<longleftrightarrow> (real_of_int (x * 100) < real_of_int (delay * tolerance))"
      by simp
    also have "\<dots> \<longleftrightarrow> (x * 100 < delay * tolerance)"
      by (rule of_int_less_iff)
    finally show ?thesis .
  qed
  show ?thesis using assms
    by (simp only: rx_match_def py_getitem_def py_index_def cmp) simp
qed

theorem rx_match_tolerance_witness:
  "(0::int) \<le> 1 \<and> 1 + 1 < int (length [32550, 1050, 3150 :: int])
   \<and> rx_match [32550, 1050, 3150] 1 1050 (real_of_int (1050 * 70) / 100) 1 3 = Inr True"
proof -
  have h: "(1::int) + 1 < int (length [32550, 1050, 3150 :: int])" by simp
  show ?thesis
    using rx_match_tolerance [of 1 "[32550, 1050, 3150]" 1050 70 1 3] h by simp
qed

text \<open>The claim as written fails: protocol 1 at 70 percent and a unit of 1050 microseconds
  has a window of 735; a high pulse 735 above the 1050 expected does not match.\<close>

theorem rx_match_tolerance_counterexample:
  "real_of_int \<bar>1785 - 1050 * 1\<bar> = real_of_int (1050 * 70) / 100
   \<and> rx_match [32550, 1785, 3150] 1 1050 (real_of_int (1050 * 70) / 100) 1 3 = Inr False"
  by (simp add: rx_match_def py_getitem_def py_index_def)

subsection \<open>The transmitter\<close>

lemma py_range_upt:
  "0 \<le> a \<Longrightarrow> py_range a b 1 = map int [nat a..<nat b]"
proof (induction "nat (b - a)" arbitrary: a)
  case 0
  then have "b \<le> a" by simp
  then show ?case using 0 by (simp add: py_range.simps[of a b 1])
next
  case (Suc n)
  then have lt: "a < b" by linarith
  have "n = nat (b - (a + 1))" using Suc(2) by linarith
  then have ih: "py_range (a + 1) b 1 = map int [nat (a + 1)..<nat b]"
    using Suc(1)[of "a + 1"] Suc(3) by simp
  have up: "[nat a..<nat b] = nat a # [nat (a + 1)..<nat b]"
    using lt Suc(3) by (simp add: upt_conv_Cons nat_add_distrib)
  show ?case
    using lt Suc(3) ih up by (simp add: py_range.simps[of a b 1])
qed

lemma tx_then_ok: "tx_then (Inr True, xs) r = (fst r, xs @ snd r)"
  by (simp add: tx_then_def)

lemma length_PROTOCOLS: "length PROTOCOLS = 7"
  by (simp add: PROTOCOLS_def)

lemma protocol_ids:
  assumes "0 < i" "i < (7::int)"
  shows "i = 1 \<or> i = 2 \<or> i = 3 \<or> i = 4 \<or> i = 5 \<or> i = 6"
  using assms by arith

lemma PROTOCOLS_lookup:
  "py_getitem Protocols PROTOCOLS 1 = Inr (Some (Protocol 350 1 31 1 3 3 1))"
  "py_getitem Protocols PROTOCOLS 2 = Inr (Some (Protocol 650 1 10 1 2 2 1))"
  "py_getitem Protocols PROTOCOLS 3 = Inr (Some (Protocol 100 30 71 4 11 9 6))"
  "py_getitem Protocols PROTOCOLS 4 = Inr (Some (Protocol 380 1 6 1 3 3 1))"
  "py_getitem Protocols PROTOCOLS 5 = Inr (Some (Protocol 500 6 14 1 2 2 1))"
  "py_getitem Protocols PROTOCOLS 6 = Inr (Some (Protocol 200 1 10 1 5 1 1))"
  by (simp_all add: py_getitem_def py_index_def PROTOCOLS_def)

lemma tx_protocol_defined:
  assumes "0 < tx_proto dev" "tx_proto dev < 7"
  shows "\<exists>p. py_getitem Protocols PROTOCOLS (tx_proto dev) = Inr (Some p) \<and> tx_protocol dev = Inr p"
  using protocol_ids[OF assms] by (auto simp: tx_protocol_def PROTOCOLS_lookup)

lemma tx_waves:
  assumes "tx_enabled dev" "0 < tx_proto dev" "tx_proto dev < 7" "tx_protocol dev = Inr p"
  shows "tx_l0 dev = (Inr True, wave_events dev (zero_high p) (zero_low p))"
    and "tx_l1 dev = (Inr True, wave_events dev (one_high p) (one_low p))"
    and "tx_sync dev = (Inr True, wave_events dev (sync_high p) (sync_low p))"
  using assms
  by (simp_all add: tx_l0_def tx_l1_def tx_sync_def tx_waveform_def wave_events_def length_PROTOCOLS)

lemma tx_bin_bits_events:
  assumes "tx_enabled dev" "0 < tx_proto dev" "tx_proto dev < 7" "tx_protocol dev = Inr p"
    and "list_all (\<lambda>i. 0 \<le> i \<and> i < int (length rawcode)) idxs"
  shows "tx_bin_bits dev rawcode idxs =
           (Inr True, concat (map (\<lambda>i. bit_events dev p (rawcode ! nat i)) idxs))"
  using assms(5)
proof (induction idxs)
  case Nil
  then show ?case by simp
next
  case (Cons i idxs)
  then have i: "0 \<le> i" "i < int (length rawcode)" by simp_all
  have ih: "tx_bin_bits dev rawcode idxs =
           (Inr True, concat (map (\<lambda>i. bit_events dev p (rawcode ! nat i)) idxs))"
    using Cons by simp
  show ?case using i ih tx_waves[OF assms(1-4)]
    by (simp add: py_getitem_def py_index_def tx_then_ok bit_events_def)
qed

lemma tx_bin_bits_range:
  assumes "tx_enabled dev" "0 < tx_proto dev" "tx_proto dev < 7" "tx_protocol dev = Inr p"
    and "len \<le> int (length rawcode)"
  shows "tx_bin_bits dev rawcode (py_range 0 len 1) =
           (Inr True, concat (map (bit_events dev p) (take (nat len) rawcode)))"
proof -
  have r: "py_range 0 len 1 = map int [0..<nat len]"
    using py_range_upt[of 0 len] by simp
  have "list_all (\<lambda>i. 0 \<le> i \<and> i < int (length rawcode)) (map int [0..<nat len])"
    using assms(5) by (auto simp: list_all_iff)
  then have "tx_bin_bits dev rawcode (map int [0..<nat len]) =
     (Inr True, concat (map (\<lambda>i. bit_events dev p (rawcode ! nat i)) (map int [0..<nat len])))"
    by (rule tx_bin_bits_events[OF assms(1-4)])
  moreover have "map (\<lambda>i. bit_events dev p (rawcode ! nat i)) (map int [0..<nat len])
        = map (bit_events dev p) (take (nat len) rawcode)"
  proof -
    have "take (nat len) rawcode = map ((!) rawcode) [0..<nat len]"
      using assms(5) by (metis (no_types) map_nth take_map take_upt add_0 nat_le_iff)
    then show ?thesis by (simp add: comp_def)
  qed
  ultimately show ?thesis using r by simp
qed

lemma tx_bin_frame_events:
  assumes "tx_enabled dev" "0 < tx_proto dev" "tx_proto dev < 7" "tx_protocol dev = Inr p"
    and "tx_length dev \<le> int (length rawcode)"
  shows "tx_bin_frame dev rawcode =
           (Inr True, (if tx_proto dev = 6 then wave_events dev (sync_high p) (sync_low p) else [])
                      @ frame_events dev p (take (nat (tx_length dev)) rawcode))"
  using tx_waves[OF assms(1-4)] tx_bin_bits_range[OF assms]
  by (simp add: tx_bin_frame_def tx_then_ok frame_events_def)

lemma tx_bin_repeat_events:
  assumes "tx_bin_frame dev rawcode = (Inr True, evs)"
  shows "tx_bin_repeat dev rawcode n = (Inr True, concat (replicate n evs))"
  by (induction n) (simp_all add: assms tx_then_ok)

lemma tx_bin_events:
  assumes "tx_enabled dev" "0 < tx_proto dev" "tx_proto dev < 7" "tx_protocol dev = Inr p"
    and "tx_length dev \<le> int (length rawcode)"
  shows "tx_bin dev rawcode =
           (Inr True, concat (replicate (nat (tx_repeat dev))
              ((if tx_proto dev = 6 then wave_events dev (sync_high p) (sync_low p) else [])
                      @ frame_events dev p (take (nat (tx_length dev)) rawcode))))"
  unfolding tx_bin_def
  by (rule tx_bin_repeat_events[OF tx_bin_frame_events[OF assms]])


lemma bits_value_snoc:
  "bits_value (bs @ [c]) = (if c = CHR ''0'' then 2 * bits_value bs else 2 * bits_value bs + 1)"
  by (simp add: bits_value_def)

lemma bits_value_Nil: "bits_value [] = 0"
  by (simp add: bits_value_def)

lemma bits_value_zeros: "bits_value (replicate k CHR ''0'' @ bs) = bits_value bs"
proof -
  have "foldl (\<lambda>code c. if c = CHR ''0'' then 2 * code else 2 * code + 1) 0 (replicate k CHR ''0'') = (0::int)"
    by (induction k) simp_all
  then show ?thesis by (simp add: bits_value_def)
qed

lemma length_bin_digits_pos: "0 < length (bin_digits n)"
  by (subst bin_digits.simps) simp

lemma bits_value_take_bin_digits:
  "m \<le> length (bin_digits n) \<Longrightarrow>
   bits_value (take m (bin_digits n)) = int (n div 2 ^ (length (bin_digits n) - m))"
proof (induction n arbitrary: m rule: bin_digits.induct)
  case (1 n)
  show ?case
  proof (cases "n < 2")
    case True
    then have d: "bin_digits n = [if n = 0 then CHR ''0'' else CHR ''1'']"
      by (subst bin_digits.simps) simp
    from 1(2) d have "m = 0 \<or> m = 1" by auto
    then show ?thesis using True d by (auto simp: bits_value_def)
  next
    case False
    let ?ds = "bin_digits (n div 2)"
    let ?c = "if n mod 2 = 0 then CHR ''0'' else CHR ''1''"
    have d: "bin_digits n = ?ds @ [?c]"
      using False by (subst bin_digits.simps) simp
    show ?thesis
    proof (cases "m \<le> length ?ds")
      case True
      have "bits_value (take m ?ds) = int (n div 2 div 2 ^ (length ?ds - m))"
        using 1(1)[OF False True] .
      moreover have "n div 2 div 2 ^ (length ?ds - m) = n div 2 ^ (Suc (length ?ds) - m)"
        using True by (simp add: div_mult2_eq Suc_diff_le)
      ultimately show ?thesis using True d by simp
    next
      case False
      then have m: "m = Suc (length ?ds)" using 1(2) d by simp
      have "bits_value ?ds = int (n div 2)"
        using 1(1)[OF \<open>\<not> n < 2\<close>, of "length ?ds"] by simp
      moreover have "2 * int (n div 2) + int (n mod 2) = int n"
        by presburger
      moreover have "n mod 2 = 0 \<or> n mod 2 = 1" by presburger
      ultimately show ?thesis using m d
        by (auto simp: bits_value_snoc)
    qed
  qed
qed

lemma bits_value_bin_digits: "bits_value (bin_digits n) = int n"
  using bits_value_take_bin_digits[of "length (bin_digits n)" n] by simp

lemma bin_digits_chars: "set (bin_digits n) \<subseteq> {CHR ''0'', CHR ''1''}"
proof (induction n rule: bin_digits.induct)
  case (1 n)
  show ?case
  proof (cases "n < 2")
    case True
    then show ?thesis by (subst bin_digits.simps) simp
  next
    case False
    then show ?thesis using 1 by (subst bin_digits.simps) auto
  qed
qed

lemma tx_rawcode_nonneg:
  "0 \<le> code \<Longrightarrow> tx_rawcode dev code =
     replicate (nat (tx_length dev - int (length (bin_digits (nat code))))) CHR ''0''
       @ bin_digits (nat code)"
  by (simp add: tx_rawcode_def py_bin_def)

lemma tx_code_not6:
  "tx_proto dev \<noteq> 6 \<Longrightarrow> tx_code code dev = (tx_bin dev (tx_rawcode dev code), dev)"
  by (simp add: tx_code_def Let_def)

text \<open>
  Claim C10. On an enabled transmitter with a protocol id in 1..5, a non-negative code
  whose binary representation has more digits than the configured frame length is not
  rejected: \<^verbatim>\<open>tx_code\<close> returns \<^verbatim>\<open>True\<close>, leaves the device as it was, and each of the
  \<^verbatim>\<open>tx_repeat\<close> frames carries exactly the leading \<^verbatim>\<open>tx_length\<close> digits of the
  representation, each as the zero or one waveform of entry \<^verbatim>\<open>tx_proto\<close> of the protocol
  table, followed by the sync waveform of that entry. These digits spell the code with its
  low-order bits dropped.
\<close>

theorem tx_code_overwide:
  assumes "tx_enabled dev" and "1 \<le> tx_proto dev" and "tx_proto dev \<le> 5" and "0 \<le> code"
    and "tx_length dev < int (length (bin_digits (nat code)))"
  shows "\<exists>p. PROTOCOLS ! nat (tx_proto dev) = Some p \<and>
           tx_code code dev =
             ((Inr True,
               concat (replicate (nat (tx_repeat dev))
                 (frame_events dev p (take (nat (tx_length dev)) (bin_digits (nat code)))))),
              dev)
         \<and> bits_value (take (nat (tx_length dev)) (bin_digits (nat code)))
             = code div 2 ^ (length (bin_digits (nat code)) - nat (tx_length dev))"
proof -
  have r: "0 < tx_proto dev" "tx_proto dev < 7" "tx_proto dev \<noteq> 6"
    using assms(2,3) by simp_all
  obtain p where g: "py_getitem Protocols PROTOCOLS (tx_proto dev) = Inr (Some p)"
    and p: "tx_protocol dev = Inr p"
    using tx_protocol_defined[OF r(1,2)] by blast
  have tab: "PROTOCOLS ! nat (tx_proto dev) = Some p"
    using g r(1,2) by (simp add: py_getitem_def py_index_def length_PROTOCOLS)
  have raw: "tx_rawcode dev code = bin_digits (nat code)"
    using assms(4,5) by (simp add: tx_rawcode_nonneg)
  have len: "tx_length dev \<le> int (length (tx_rawcode dev code))"
    using assms(5) raw by simp
  have "tx_code code dev =
             ((Inr True,
               concat (replicate (nat (tx_repeat dev))
                 (frame_events dev p (take (nat (tx_length dev)) (bin_digits (nat code)))))),
              dev)"
    using tx_bin_events[OF assms(1) r(1,2) p len] r(3) raw
    by (simp add: tx_code_not6)
  moreover have "bits_value (take (nat (tx_length dev)) (bin_digits (nat code)))
             = code div 2 ^ (length (bin_digits (nat code)) - nat (tx_length dev))"
  proof -
    have "nat (tx_length dev) \<le> length (bin_digits (nat code))"
      using assms(5) by simp
    from bits_value_take_bin_digits[OF this] assms(4)
    show ?thesis by (simp add: zdiv_int)
  qed
  ultimately show ?thesis using tab by blast
qed

text \<open>Code 1000 is 1111101000 in binary; with a frame length of 4 on protocol 1 each of the
  ten repetitions is four one waveforms (3150 high, 1050 low) and the sync waveform
  (1050 high, 32550 low), and 1111 is 1000 div 64 = 15.\<close>

theorem tx_code_overwide_witness:
  "tx_enabled (demo_tx_device\<lparr>tx_length := 4\<rparr>)
   \<and> 1 \<le> tx_proto (demo_tx_device\<lparr>tx_length := 4\<rparr>)
   \<and> tx_proto (demo_tx_device\<lparr>tx_length := 4\<rparr>) \<le> 5
   \<and> (0::int) \<le> 1000
   \<and> tx_length (demo_tx_device\<lparr>tx_length := 4\<rparr>) < int (length (bin_digits (nat 1000)))
   \<and> tx_code 1000 (demo_tx_device\<lparr>tx_length := 4\<rparr>) =
        ((Inr True,
          concat (replicate 10
            [(True, 3150), (False, 1050), (True, 3150), (False, 1050),
             (True, 3150), (False, 1050), (True, 3150), (False, 1050),
             (True, 1050), (False, 32550)])),
         demo_tx_device\<lparr>tx_length := 4\<rparr>)
   \<and> bits_value (take 4 (bin_digits (nat 1000))) = 15"
proof -
  let ?D = "demo_tx_device\<lparr>tx_length := 4\<rparr>"
  have h1: "tx_enabled ?D" by (simp add: demo_tx_device_def)
  have h2: "1 \<le> tx_proto ?D" by (simp add: demo_tx_device_def demo_device_def)
  have h3: "tx_proto ?D \<le> 5" by (simp add: demo_tx_device_def demo_device_def)
  have h4: "(0::int) \<le> 1000" by simp
  have d: "bin_digits (nat 1000) = ''1111101000''" by code_simp
  have h5: "tx_length ?D < int (length (bin_digits (nat 1000)))"
    by (simp only: d) simp
  have f: "tx_proto ?D = 1" "tx_repeat ?D = 10" "tx_length ?D = 4" "tx_pulselength ?D = 350"
    by (simp_all add: demo_tx_device_def demo_device_def)
  from tx_code_overwide [OF h1 h2 h3 h4 h5]
  obtain p where p: "PROTOCOLS ! nat (tx_proto ?D) = Some p"
    and e: "tx_code 1000 ?D =
             ((Inr True,
               concat (replicate (nat (tx_repeat ?D))
                 (frame_events ?D p (take (nat (tx_length ?D)) (bin_digits (nat 1000)))))),
              ?D)"
    and v: "bits_value (take (nat (tx_length ?D)) (bin_digits (nat 1000)))
             = 1000 div 2 ^ (length (bin_digits (nat 1000)) - nat (tx_length ?D))"
    by blast
  have pv: "p = Protocol 350 1 31 1 3 3 1"
    using p by (simp add: f PROTOCOLS_def)
  have t: "take (nat (tx_length ?D)) (bin_digits (nat 1000)) = ''1111''"
    by (simp only: d f) simp
  have ev: "frame_events ?D p ''1111'' =
            [(True, 3150), (False, 1050), (True, 3150), (False, 1050),
             (True, 3150), (False, 1050), (True, 3150), (False, 1050),
             (True, 1050), (False, 32550)]"
    by (simp add: pv frame_events_def bit_events_def wave_events_def Protocol_def
        SCALE_TIME_US_def f)
  have e': "tx_code 1000 ?D =
        ((Inr True,
          concat (replicate 10
            [(True, 3150), (False, 1050), (True, 3150), (False, 1050),
             (True, 3150), (False, 1050), (True, 3150), (False, 1050),
             (True, 1050), (False, 32550)])), ?D)"
    using e[unfolded t, unfolded ev] f(2) by simp
  have v': "bits_value (take 4 (bin_digits (nat 1000))) = 15"
    using v by (simp only: d f) simp
  show ?thesis using h1 h2 h3 h4 h5 e' v' by blast
qed

subsection \<open>The transmitter on protocol 6\<close>

lemma tx_then_error: "fst a = Inl e \<Longrightarrow> tx_then a b = (Inl e, snd a)"
  by (simp add: tx_then_def)

lemma tx_bin_repeat_error:
  assumes "fst (tx_bin_frame dev rawcode) = Inl e" and "0 < n"
  shows "tx_bin_repeat dev rawcode n = (Inl e, snd (tx_bin_frame dev rawcode))"
proof -
  obtain k where "n = Suc k" using assms(2) by (cases n) auto
  then show ?thesis using assms(1) by (simp add: tx_then_error)
qed

lemma events_tx_length:
  "wave_events (dev\<lparr>tx_length := n\<rparr>) = wave_events dev"
  "bit_events (dev\<lparr>tx_length := n\<rparr>) = bit_events dev"
  "frame_events (dev\<lparr>tx_length := n\<rparr>) = frame_events dev"
proof -
  show w: "wave_events (dev\<lparr>tx_length := n\<rparr>) = wave_events dev"
    by (simp add: wave_events_def fun_eq_iff)
  show b: "bit_events (dev\<lparr>tx_length := n\<rparr>) = bit_events dev"
    by (simp add: bit_events_def fun_eq_iff w)
  show "frame_events (dev\<lparr>tx_length := n\<rparr>) = frame_events dev"
    by (simp add: frame_events_def fun_eq_iff w b)
qed

lemma nexa_expand_subst:
  "nexa_expand acc bs =
     acc @ concat (map (\<lambda>b. if b = CHR ''0'' then ''01''
                            else if b = CHR ''1'' then ''10'' else []) bs)"
  by (induction bs arbitrary: acc) (simp_all add: Let_def)

text \<open>Protocol 6 when the expanded pattern has at least 64 characters: every repetition is
  a sync waveform, the first 64 characters of the expansion, and the closing sync.\<close>

lemma tx_code_nexa:
  assumes "tx_enabled dev" and "tx_proto dev = 6"
    and "64 \<le> length (nexa_expand [] (tx_rawcode dev code))"
  shows "tx_code code dev =
           ((Inr True,
             concat (replicate (nat (tx_repeat dev))
               (wave_events dev 1 10
                @ frame_events dev (Protocol 200 1 10 1 5 1 1)
                    (take 64 (nexa_expand [] (tx_rawcode dev code)))))),
            dev\<lparr>tx_length := 64\<rparr>)"
proof -
  let ?d = "dev\<lparr>tx_length := 64\<rparr>"
  let ?p = "Protocol 200 1 10 1 5 1 1"
  have p: "tx_protocol ?d = Inr ?p"
    using assms(2) by (simp add: tx_protocol_def PROTOCOLS_lookup)
  have en: "tx_enabled ?d" "0 < tx_proto ?d" "tx_proto ?d < 7"
    using assms(1,2) by simp_all
  have len: "tx_length ?d \<le> int (length (nexa_expand [] (tx_rawcode dev code)))"
    using assms(3) by simp
  have sy: "sync_high ?p = 1" "sync_low ?p = 10" by (simp_all add: Protocol_def)
  note w = events_tx_length
  show ?thesis
    using tx_bin_events[OF en p len] assms(2)
    by (simp add: tx_code_def Let_def sy w)
qed

lemma tx_rawcode_chars:
  assumes "0 \<le> code"
  shows "set (tx_rawcode dev code) \<subseteq> {CHR ''0'', CHR ''1''}"
  using bin_digits_chars[of "nat code"] assms by (auto simp: tx_rawcode_nonneg)

lemma nexa_expand_length:
  assumes "set bs \<subseteq> {CHR ''0'', CHR ''1''}"
  shows "length (nexa_expand [] bs) = 2 * length bs"
  using assms unfolding nexa_expand_subst by (induction bs) auto

text \<open>Protocol 6 with a configured frame length of at least 32: the send succeeds and
  every repetition is the sync waveform, 64 bit waveforms and the sync waveform again.\<close>

lemma tx_code_nexa_configured:
  assumes "tx_enabled dev" and "tx_proto dev = 6" and "0 \<le> code" and "32 \<le> tx_length dev"
  shows "tx_code code dev =
           ((Inr True,
             concat (replicate (nat (tx_repeat dev))
               (wave_events dev 1 10
                @ frame_events dev (Protocol 200 1 10 1 5 1 1)
                    (take 64 (nexa_expand [] (tx_rawcode dev code)))))),
            dev\<lparr>tx_length := 64\<rparr>)
         \<and> length (take 64 (nexa_expand [] (tx_rawcode dev code))) = 64"
proof -
  have "32 \<le> length (tx_rawcode dev code)"
    using assms(3,4) by (simp add: tx_rawcode_nonneg)
  then have l: "64 \<le> length (nexa_expand [] (tx_rawcode dev code))"
    using nexa_expand_length[OF tx_rawcode_chars[OF assms(3)], of dev] by simp
  show ?thesis using tx_code_nexa[OF assms(1,2) l] l by simp
qed

text \<open>
  Claim C2. On a protocol-6 device \<^verbatim>\<open>tx_code\<close> substitutes \<^verbatim>\<open>01\<close> for each
  \<^verbatim>\<open>0\<close> and \<^verbatim>\<open>10\<close> for each \<^verbatim>\<open>1\<close> of the padded pattern and sets the frame length
  to 64, whatever was configured. With the default frame length of 24 the expansion of code
  255 has only 48 characters, and the send does not transmit a 64-bit frame: after the
  leading sync and 48 bit waveforms of the first repetition (98 pin events) the read of
  character 48 raises IndexError, so no closing sync and no further repetition follows.
\<close>

theorem tx_code_nexa_short_frame:
  "tx_proto (nexa_device 24) = 6 \<and> tx_enabled (nexa_device 24) \<and> tx_length (nexa_device 24) = 24
   \<and> tx_rawcode (nexa_device 24) 255 = ''000000000000000011111111''
   \<and> nexa_expand [] (tx_rawcode (nexa_device 24) 255) = ''010101010101010101010101010101011010101010101010''
   \<and> fst (fst (tx_code 255 (nexa_device 24))) = Inl (IndexError Rawcode)
   \<and> length (snd (fst (tx_code 255 (nexa_device 24)))) = 98"
proof -
  let ?d = "(nexa_device 24)\<lparr>tx_length := 64\<rparr>"
  have c: "tx_proto (nexa_device 24) = 6 \<and> tx_enabled (nexa_device 24) \<and> tx_length (nexa_device 24) = 24"
    by (simp add: nexa_device_def)
  have r: "tx_rawcode (nexa_device 24) 255 = ''000000000000000011111111''"
    by code_simp
  have e: "nexa_expand [] ''000000000000000011111111'' = ''010101010101010101010101010101011010101010101010''"
    by code_simp
  have f: "fst (tx_bin_frame ?d ''010101010101010101010101010101011010101010101010'') = Inl (IndexError Rawcode)
           \<and> length (snd (tx_bin_frame ?d ''010101010101010101010101010101011010101010101010'')) = 98"
    by code_simp
  have n: "0 < nat (tx_repeat ?d)"
    by (simp add: nexa_device_def demo_device_def)
  have "tx_bin ?d ''010101010101010101010101010101011010101010101010'' = (Inl (IndexError Rawcode), snd (tx_bin_frame ?d ''010101010101010101010101010101011010101010101010''))"
    unfolding tx_bin_def using tx_bin_repeat_error[OF conjunct1[OF f] n] .
  then have "fst (fst (tx_code 255 (nexa_device 24))) = Inl (IndexError Rawcode)
     \<and> length (snd (fst (tx_code 255 (nexa_device 24)))) = 98"
    using c r e f by (simp add: tx_code_def Let_def)
  then show ?thesis using c r e by simp
qed

text \<open>
  Claim C7. On a protocol-6 device configured with a frame length of 32, \<^verbatim>\<open>tx_code\<close>
  returns \<^verbatim>\<open>True\<close> and leaves the frame length of the device at 64, not at the 32 it
  had before the call; the next send of the same code 255 on that device then emits the
  pulse train of code 0.
\<close>

theorem tx_code_nexa_length_leak:
  "tx_proto (nexa_device 32) = 6 \<and> tx_length (nexa_device 32) = 32
   \<and> fst (fst (tx_code 255 (nexa_device 32))) = Inr True
   \<and> tx_length (snd (tx_code 255 (nexa_device 32))) = 64
   \<and> fst (tx_code 255 (snd (tx_code 255 (nexa_device 32)))) = fst (tx_code 0 (nexa_device 32))"
proof -
  let ?d = "nexa_device 32"
  let ?d' = "(nexa_device 32)\<lparr>tx_length := 64\<rparr>"
  have c: "tx_enabled ?d" "tx_proto ?d = 6" "tx_length ?d = 32"
     "tx_enabled ?d'" "tx_proto ?d' = 6" "tx_repeat ?d' = tx_repeat ?d"
    by (simp_all add: nexa_device_def)
  have e1: "nexa_expand [] (tx_rawcode ?d 255) = ''0101010101010101010101010101010101010101010101011010101010101010''"
    by code_simp
  have e0: "nexa_expand [] (tx_rawcode ?d 0) = ''0101010101010101010101010101010101010101010101010101010101010101''"
    by code_simp
  have e2: "nexa_expand [] (tx_rawcode ?d' 255) = ''01010101010101010101010101010101010101010101010101010101010101010101010101010101010101010101010101010101010101011010101010101010''"
    by code_simp
  have l1: "64 \<le> length (nexa_expand [] (tx_rawcode ?d 255))" by (simp only: e1) simp
  have l0: "64 \<le> length (nexa_expand [] (tx_rawcode ?d 0))" by (simp only: e0) simp
  have l2: "64 \<le> length (nexa_expand [] (tx_rawcode ?d' 255))" by (simp only: e2) simp
  have t: "take 64 (nexa_expand [] (tx_rawcode ?d' 255)) = take 64 (nexa_expand [] (tx_rawcode ?d 0))"
    by (simp only: e2 e0) simp
  note w = events_tx_length
  note s1 = tx_code_nexa[OF c(1,2) l1]
  note s0 = tx_code_nexa[OF c(1,2) l0]
  note s2 = tx_code_nexa[OF c(4,5) l2]
  have "fst (tx_code 255 (snd (tx_code 255 ?d))) = fst (tx_code 0 ?d)"
    by (simp only: s1 snd_conv) (simp only: s2 s0 fst_conv t w c(6))
  then show ?thesis using c s1 by simp
qed

subsection \<open>The frame decoder as a whole\<close>

lemma shift_or: "push_bit 1 (c::int) = 2 * c" "push_bit 1 (c::int) OR 1 = 2 * c + 1"
  "c * 2 OR 1 = c * 2 + 1" "2 * c OR 1 = 2 * c + 1"
  by (simp_all add: or_one_eq)

lemma py_range_bounds:
  "i \<in> set (py_range a b s) \<Longrightarrow> a \<le> i \<and> i < b"
proof (induction a b s rule: py_range.induct)
  case (1 start stop step)
  show ?case
  proof (cases "step \<le> 0 \<or> stop \<le> start")
    case True
    then show ?thesis using 1(2) by (simp add: py_range.simps[of start stop step])
  next
    case False
    then have "i = start \<or> i \<in> set (py_range (start + step) stop step)"
      using 1(2) by (simp add: py_range.simps[of start stop step])
    then show ?thesis using 1(1)[OF False] False by auto
  qed
qed

lemma PROTOCOLS_sync_low:
  assumes "py_getitem Protocols PROTOCOLS i = Inr (Some p)"
  shows "sync_low p \<noteq> 0"
proof -
  from assms have "(0 \<le> i \<and> i < int (length PROTOCOLS) \<and> PROTOCOLS ! nat i = Some p)
      \<or> (- int (length PROTOCOLS) \<le> i \<and> i < 0
          \<and> PROTOCOLS ! nat (int (length PROTOCOLS) + i) = Some p)"
    by (auto simp: py_getitem_def py_index_def split: if_splits)
  then have "Some p \<in> set PROTOCOLS"
  proof
    assume a: "0 \<le> i \<and> i < int (length PROTOCOLS) \<and> PROTOCOLS ! nat i = Some p"
    then have "nat i < length PROTOCOLS" by auto
    from nth_mem[OF this] a show ?thesis by simp
  next
    assume a: "- int (length PROTOCOLS) \<le> i \<and> i < 0
          \<and> PROTOCOLS ! nat (int (length PROTOCOLS) + i) = Some p"
    then have "nat (int (length PROTOCOLS) + i) < length PROTOCOLS" by auto
    from nth_mem[OF this] a show ?thesis by simp
  qed
  then show ?thesis by (auto simp: PROTOCOLS_def Protocol_def)
qed

lemma rx_match_in_range:
  assumes "0 \<le> i" "i + 1 < int (length T)"
  shows "rx_match T i d tol high low =
         Inr (real_of_int \<bar>T ! nat i - d * high\<bar> < tol \<and> real_of_int \<bar>T ! nat (i + 1) - d * low\<bar> < tol)"
  using assms by (simp add: rx_match_def py_getitem_def py_index_def)

lemma rx_waveform_loop_spec:
  assumes "list_all (\<lambda>i. 0 \<le> i \<and> i + 1 < int (length (rx_timings dev))) idxs"
  shows "rx_waveform_loop p (rx_timings dev) d tol idxs code =
     (if list_all (\<lambda>i. pair_is_zero dev p d tol i \<or> pair_is_one dev p d tol i) idxs
      then Inr (Some (foldl (\<lambda>code i. if pair_is_zero dev p d tol i then 2 * code
                                       else 2 * code + 1) code idxs))
      else Inr None)"
  using assms(1)
proof (induction idxs arbitrary: code)
  case Nil
  then show ?case by simp
next
  case (Cons i idxs)
  then have i: "0 \<le> i" "i + 1 < int (length (rx_timings dev))" by simp_all
  have rest: "list_all (\<lambda>i. 0 \<le> i \<and> i + 1 < int (length (rx_timings dev))) idxs"
    using Cons.prems by simp
  have z: "rx_match (rx_timings dev) i d tol (zero_high p) (zero_low p)
             = Inr (pair_is_zero dev p d tol i)"
    using rx_match_in_range[OF i] by (simp add: pair_is_zero_def pair_matches_def)
  have o: "rx_match (rx_timings dev) i d tol (one_high p) (one_low p)
             = Inr (pair_is_one dev p d tol i)"
    using rx_match_in_range[OF i] by (simp add: pair_is_one_def pair_matches_def)
  show ?case
  proof (cases "pair_is_zero dev p d tol i")
    case True
    then show ?thesis
      using Cons.IH[OF rest, of "2 * code"] by (simp add: z shift_or mult.commute)
  next
    case False
    show ?thesis
    proof (cases "pair_is_one dev p d tol i")
      case True
      then show ?thesis
        using False Cons.IH[OF rest, of "2 * code + 1"]
        by (simp add: z o shift_or mult.commute)
    next
      case nomatch: False
      then show ?thesis using False by (simp add: z o)
    qed
  qed
qed

text \<open>The decoder in full, for a protocol of the table and a count within the buffer: the
  two divisions first, each of which may raise, then the decision.\<close>

lemma rx_waveform_decides:
  assumes "py_getitem Protocols PROTOCOLS pnum = Inr (Some p)"
    and "rx_timings dev \<noteq> []"
    and "change_count < int (length (rx_timings dev))"
  shows "rx_waveform fdiv pnum change_count timestamp dev =
     (case fdiv (rx_timings dev ! 0) (sync_low p) of
        None \<Rightarrow> Inl OverflowError
      | Some q \<Rightarrow>
          (case fdiv (py_int q * rx_tolerance dev) 100 of
             None \<Rightarrow> Inl OverflowError
           | Some w \<Rightarrow>
               if frame_matches dev p (py_int q) w change_count \<and> 6 < rx_change_count dev
                  \<and> frame_value dev p (py_int q) w change_count \<noteq> 0
               then Inr (True, dev\<lparr>rx_code := Some (frame_value dev p (py_int q) w change_count),
                                   rx_code_timestamp := Some timestamp\<rparr>)
               else Inr (False, dev)))"
proof -
  have t0: "py_getitem Timings (rx_timings dev) 0 = Inr (rx_timings dev ! 0)"
    using assms(2) by (simp add: py_getitem_def py_index_def)
  have sl: "sync_low p \<noteq> 0" using PROTOCOLS_sync_low[OF assms(1)] .
  have idx: "list_all (\<lambda>i. 0 \<le> i \<and> i + 1 < int (length (rx_timings dev)))
               (py_range 1 change_count 2)"
    using py_range_bounds[of _ 1 change_count 2] assms(3) by (fastforce simp: list_all_iff)
  note loop = rx_waveform_loop_spec[OF idx, where code = 0]
  show ?thesis
    by (simp add: rx_waveform_def t0 assms(1) sl Let_def loop frame_matches_def frame_value_def
        split: option.splits)
qed

text \<open>
  Claim C8. The frame decoder is all-or-nothing. For a protocol of the table, a count that
  lies within the buffer, and intervals within the range of the floats (the two divisions
  yield a float; Python raises OverflowError, before anything is written, only for a
  quotient beyond that range), it raises nothing; it writes the mailbox (the code and its
  timestamp, and nothing else) and returns \<^verbatim>\<open>True\<close> exactly when every (high, low) pair
  matched the zero or the one template, the change counter is greater than 6 and the
  decoded integer is not 0; in every other case it returns \<^verbatim>\<open>False\<close> and the device is
  as it was. This holds for every floating-point division: \<open>q\<close> and \<open>w\<close> are the floats
  the platform computes for the timing unit and the tolerance window.
\<close>

theorem rx_waveform_all_or_nothing:
  assumes "py_getitem Protocols PROTOCOLS pnum = Inr (Some p)"
    and "rx_timings dev \<noteq> []"
    and "change_count < int (length (rx_timings dev))"
    and "fdiv (rx_timings dev ! 0) (sync_low p) = Some q"
    and "fdiv (py_int q * rx_tolerance dev) 100 = Some w"
  shows "rx_waveform fdiv pnum change_count timestamp dev =
     (if frame_matches dev p (py_int q) w change_count \<and> 6 < rx_change_count dev
         \<and> frame_value dev p (py_int q) w change_count \<noteq> 0
      then Inr (True, dev\<lparr>rx_code := Some (frame_value dev p (py_int q) w change_count),
                          rx_code_timestamp := Some timestamp\<rparr>)
      else Inr (False, dev))"
  using rx_waveform_decides [OF assms(1-3), of fdiv timestamp] assms(4,5) by simp

theorem rx_waveform_all_or_nothing_witness:
  "py_getitem Protocols PROTOCOLS 1 = Inr (Some (Protocol 350 1 31 1 3 3 1))
   \<and> rx_timings demo_frame_device \<noteq> []
   \<and> 7 < int (length (rx_timings demo_frame_device))
   \<and> exact_div (rx_timings demo_frame_device ! 0) (sync_low (Protocol 350 1 31 1 3 3 1)) = Some 1050
   \<and> exact_div (py_int 1050 * rx_tolerance demo_frame_device) 100 = Some 735
   \<and> rx_waveform exact_div 1 7 99 demo_frame_device =
       Inr (True, demo_frame_device\<lparr>rx_code := Some 5, rx_code_timestamp := Some 99\<rparr>)"
proof -
  let ?p = "Protocol 350 1 31 1 3 3 1"
  have h1: "py_getitem Protocols PROTOCOLS 1 = Inr (Some ?p)"
    by (rule PROTOCOLS_lookup(1))
  have h2: "rx_timings demo_frame_device \<noteq> []"
    by (simp add: demo_frame_device_def)
  have h3: "7 < int (length (rx_timings demo_frame_device))"
    by (simp add: demo_frame_device_def)
  have h4: "exact_div (rx_timings demo_frame_device ! 0) (sync_low ?p) = Some 1050"
    by (simp add: exact_div_def demo_frame_device_def Protocol_def)
  have i: "py_int 1050 = 1050" by (simp add: py_int_def)
  have h5: "exact_div (py_int 1050 * rx_tolerance demo_frame_device) 100 = Some 735"
    by (simp add: i exact_div_def demo_frame_device_def demo_device_def)
  have m: "frame_matches demo_frame_device ?p 1050 735 7"
    by code_simp
  have v: "frame_value demo_frame_device ?p 1050 735 7 = 5"
    by code_simp
  have c: "6 < rx_change_count demo_frame_device"
    by (simp add: demo_frame_device_def)
  show ?thesis
    using h1 h2 h3 h4 h5 rx_waveform_all_or_nothing [OF h1 h2 h3 h4 h5, of 99] m v c
    by (simp add: i)
qed

subsection \<open>The edge handler: data edges and the bounds of the buffer\<close>

lemma rx_callback_data_eq:
  assumes "THRESHOLD_TICK < timestamp - rx_last_timestamp dev"
    and "timestamp - rx_last_timestamp dev \<le> THRESHOLD_SYNC"
    and "rx_buffer_ok dev"
  shows "rx_callback fdiv timestamp dev =
     Inr (if MAX_CHANGES \<le> rx_change_count dev
          then dev\<lparr>rx_timings := (rx_timings dev)[0 := timestamp - rx_last_timestamp dev],
                   rx_change_count := 1, rx_repeat_count := 0,
                   rx_last_timestamp := timestamp\<rparr>
          else dev\<lparr>rx_timings := (rx_timings dev)[nat (rx_change_count dev) :=
                                                    timestamp - rx_last_timestamp dev],
                   rx_change_count := rx_change_count dev + 1,
                   rx_last_timestamp := timestamp\<rparr>)"
  using assms
  by (simp add: rx_callback_def Let_def rx_buffer_ok_def MAX_CHANGES_def py_setitem_def
      py_index_def)

lemma rx_waveform_no_buffer_error:
  assumes "rx_timings dev \<noteq> []" and "change_count < int (length (rx_timings dev))"
  shows "rx_waveform fdiv pnum change_count timestamp dev \<noteq> Inl (IndexError Timings)"
proof (cases "py_getitem Protocols PROTOCOLS pnum")
  case (Inl e)
  have t0: "py_getitem Timings (rx_timings dev) 0 = Inr (rx_timings dev ! 0)"
    using assms(1) by (simp add: py_getitem_def py_index_def)
  from Inl have "e = IndexError Protocols"
    by (auto simp: py_getitem_def split: option.splits)
  then show ?thesis using Inl t0 by (simp add: rx_waveform_def)
next
  case (Inr po)
  have t0: "py_getitem Timings (rx_timings dev) 0 = Inr (rx_timings dev ! 0)"
    using assms(1) by (simp add: py_getitem_def py_index_def)
  show ?thesis
  proof (cases po)
    case None
    then show ?thesis using Inr t0 by (simp add: rx_waveform_def)
  next
    case (Some p)
    show ?thesis
      using rx_waveform_decides[OF Inr[unfolded Some] assms, of fdiv timestamp]
      by (simp split: option.splits if_splits)
  qed
qed


lemma rx_callback_keeps_buffer_ok:
  assumes "rx_buffer_ok dev"
  shows "case rx_callback fdiv timestamp dev of
           Inl e \<Rightarrow> e \<noteq> IndexError Timings
         | Inr dev' \<Rightarrow> rx_buffer_ok dev'"
proof -
  let ?dur = "timestamp - rx_last_timestamp dev"
  have ne: "rx_timings dev \<noteq> []"
    using assms by (auto simp: rx_buffer_ok_def MAX_CHANGES_def)
  consider (noise) "?dur \<le> THRESHOLD_TICK"
    | (data) "THRESHOLD_TICK < ?dur" "?dur \<le> THRESHOLD_SYNC"
    | (sync) "THRESHOLD_SYNC < ?dur"
    by linarith
  then show ?thesis
  proof cases
    case noise
    then show ?thesis using assms
      by (simp add: rx_callback_def Let_def rx_buffer_ok_def)
  next
    case data
    show ?thesis using assms
      by (simp add: rx_callback_data_eq[OF data assms] rx_buffer_ok_def MAX_CHANGES_def)
  next
    case sync
    let ?d0 = "dev\<lparr>rx_repeat_count := rx_repeat_count dev + 1,
                     rx_change_count := rx_change_count dev - 1\<rparr>"
    have "rx_timings ?d0 \<noteq> []" using ne by simp
    moreover have "rx_change_count dev - 1 < int (length (rx_timings ?d0))"
      using assms by (simp add: rx_buffer_ok_def MAX_CHANGES_def)
    ultimately have nb: "rx_waveform fdiv (rx_proto dev) (rx_change_count dev - 1) timestamp ?d0
                         \<noteq> Inl (IndexError Timings)"
      by (rule rx_waveform_no_buffer_error)
    show ?thesis
    proof (cases "rx_callback fdiv timestamp dev")
      case (Inl e)
      then show ?thesis using rx_callback_sync_eq[OF sync ne] nb
        by (auto split: if_splits sum.splits)
    next
      case (Inr dev')
      from rx_callback_sync_result[OF sync ne Inr] assms
      show ?thesis using Inr by (simp add: rx_buffer_ok_def MAX_CHANGES_def)
    qed
  qed
qed

lemma rx_edges_keep_buffer_ok:
  assumes "rx_buffer_ok dev"
  shows "case rx_edges fdiv ts dev of
           Inl e \<Rightarrow> e \<noteq> IndexError Timings
         | Inr dev' \<Rightarrow> rx_buffer_ok dev'"
  using assms
proof (induction ts arbitrary: dev)
  case Nil
  then show ?case by simp
next
  case (Cons t ts)
  show ?case
  proof (cases "rx_callback fdiv t dev")
    case (Inl e)
    then show ?thesis using rx_callback_keeps_buffer_ok[OF Cons.prems, of fdiv t] by simp
  next
    case (Inr d)
    then have "rx_buffer_ok d" using rx_callback_keeps_buffer_ok[OF Cons.prems, of fdiv t] by simp
    from Cons.IH[OF this] show ?thesis using Inr by simp
  qed
qed

lemma RFDevice_init_buffer_ok:
  "RFDevice_init g proto pl rep len tol = Inr dev \<Longrightarrow> rx_buffer_ok dev"
  by (auto simp: RFDevice_init_def rx_buffer_ok_def MAX_CHANGES_def
      split: if_splits sum.splits option.splits)

lemma rx_callback_write_slot:
  assumes "rx_buffer_ok dev" and "rx_callback fdiv timestamp dev = Inr dev'"
  shows "rx_timings dev' = rx_timings dev
       \<or> (\<exists>k < length (rx_timings dev).
             rx_timings dev' = (rx_timings dev)[k := timestamp - rx_last_timestamp dev])"
proof -
  let ?dur = "timestamp - rx_last_timestamp dev"
  have ne: "rx_timings dev \<noteq> []"
    using assms(1) by (auto simp: rx_buffer_ok_def MAX_CHANGES_def)
  consider (noise) "?dur \<le> THRESHOLD_TICK"
    | (data) "THRESHOLD_TICK < ?dur" "?dur \<le> THRESHOLD_SYNC"
    | (sync) "THRESHOLD_SYNC < ?dur"
    by linarith
  then show ?thesis
  proof cases
    case noise
    then show ?thesis using assms(2)
      by (auto simp: rx_callback_def Let_def)
  next
    case data
    have "nat (rx_change_count dev) < length (rx_timings dev) \<or> MAX_CHANGES \<le> rx_change_count dev"
      using assms(1) by (auto simp: rx_buffer_ok_def MAX_CHANGES_def)
    then show ?thesis using assms(2) ne rx_callback_data_eq[OF data assms(1)]
      by (auto split: if_splits)
  next
    case sync
    from rx_callback_sync_result[OF sync ne assms(2)] ne show ?thesis by auto
  qed
qed

text \<open>
  Claim C6, as amended. On a freshly constructed device, after any sequence of edge-handler
  invocations no access to the interval buffer has raised IndexError, the buffer still has
  its \<^verbatim>\<open>MAX_CHANGES + 1\<close> slots and the change counter lies in \<open>0..MAX_CHANGES\<close>, so it is a valid,
  non-negative index for the next write; an invocation changes at most one slot of the
  buffer, at an index below its length. When a data interval arrives with the change
  counter at \<^verbatim>\<open>MAX_CHANGES\<close> or more, the handler sets the repeat counter to 0 and restarts
  the frame at slot 0: the interval is stored there and the change counter is 1 (not 0)
  when the handler returns.
\<close>

theorem rx_buffer_bounds:
  "(RFDevice_init g proto pl rep len tol = Inr dev \<longrightarrow>
      (case rx_edges fdiv ts dev of
         Inl e \<Rightarrow> e \<noteq> IndexError Timings
       | Inr dev' \<Rightarrow> rx_buffer_ok dev'))
   \<and> (rx_buffer_ok d \<and> rx_callback fdiv t d = Inr d' \<longrightarrow>
        rx_timings d' = rx_timings d
        \<or> (\<exists>k < length (rx_timings d). rx_timings d' = (rx_timings d)[k := t - rx_last_timestamp d]))
   \<and> (rx_buffer_ok d \<and> THRESHOLD_TICK < t - rx_last_timestamp d
        \<and> t - rx_last_timestamp d \<le> THRESHOLD_SYNC \<and> MAX_CHANGES \<le> rx_change_count d \<longrightarrow>
        rx_callback fdiv t d =
          Inr (d\<lparr>rx_timings := (rx_timings d)[0 := t - rx_last_timestamp d],
                 rx_change_count := 1, rx_repeat_count := 0, rx_last_timestamp := t\<rparr>))"
proof (intro conjI impI)
  assume "RFDevice_init g proto pl rep len tol = Inr dev"
  then have "rx_buffer_ok dev" by (rule RFDevice_init_buffer_ok)
  then show "case rx_edges fdiv ts dev of Inl e \<Rightarrow> e \<noteq> IndexError Timings | Inr dev' \<Rightarrow> rx_buffer_ok dev'"
    by (rule rx_edges_keep_buffer_ok)
next
  assume "rx_buffer_ok d \<and> rx_callback fdiv t d = Inr d'"
  then show "rx_timings d' = rx_timings d
        \<or> (\<exists>k < length (rx_timings d). rx_timings d' = (rx_timings d)[k := t - rx_last_timestamp d])"
    using rx_callback_write_slot by blast
next
  assume a: "rx_buffer_ok d \<and> THRESHOLD_TICK < t - rx_last_timestamp d
        \<and> t - rx_last_timestamp d \<le> THRESHOLD_SYNC \<and> MAX_CHANGES \<le> rx_change_count d"
  then show "rx_callback fdiv t d =
          Inr (d\<lparr>rx_timings := (rx_timings d)[0 := t - rx_last_timestamp d],
                 rx_change_count := 1, rx_repeat_count := 0, rx_last_timestamp := t\<rparr>)"
    using rx_callback_data_eq[of t d] by simp
qed

theorem rx_buffer_bounds_witness:
  "RFDevice_init 6 1 None 10 24 70 = Inr demo_device
   \<and> (case rx_edges exact_div [100, 20000, 20500] demo_device of
         Inl e \<Rightarrow> e \<noteq> IndexError Timings
       | Inr dev' \<Rightarrow> rx_buffer_ok dev')
   \<and> rx_buffer_ok demo_full_buffer
   \<and> THRESHOLD_TICK < 34000 - rx_last_timestamp demo_full_buffer
   \<and> 34000 - rx_last_timestamp demo_full_buffer \<le> THRESHOLD_SYNC
   \<and> MAX_CHANGES \<le> rx_change_count demo_full_buffer
   \<and> rx_callback exact_div 34000 demo_full_buffer = Inr demo_after_overflow"
proof -
  have h: "rx_buffer_ok demo_full_buffer
     \<and> THRESHOLD_TICK < 34000 - rx_last_timestamp demo_full_buffer
     \<and> 34000 - rx_last_timestamp demo_full_buffer \<le> THRESHOLD_SYNC
     \<and> MAX_CHANGES \<le> rx_change_count demo_full_buffer"
    by (simp add: rx_buffer_ok_def demo_full_buffer_def demo_device_def MAX_CHANGES_def
        THRESHOLD_TICK_def THRESHOLD_SYNC_def)
  have r: "demo_full_buffer\<lparr>rx_timings :=
               (rx_timings demo_full_buffer)[0 := 34000 - rx_last_timestamp demo_full_buffer],
             rx_change_count := 1, rx_repeat_count := 0, rx_last_timestamp := 34000\<rparr>
           = demo_after_overflow"
    by code_simp
  have "rx_callback exact_div 34000 demo_full_buffer =
          Inr (demo_full_buffer\<lparr>rx_timings :=
               (rx_timings demo_full_buffer)[0 := 34000 - rx_last_timestamp demo_full_buffer],
             rx_change_count := 1, rx_repeat_count := 0, rx_last_timestamp := 34000\<rparr>)"
    using rx_buffer_bounds [of 6 1 None 10 24 70 demo_device exact_div "[100, 20000, 20500]"
        demo_full_buffer 34000 demo_after_overflow] h
    by blast
  then have c: "rx_callback exact_div 34000 demo_full_buffer = Inr demo_after_overflow"
    by (simp only: r)
  show ?thesis
    using RFDevice_init_demo h c
      rx_buffer_bounds [of 6 1 None 10 24 70 demo_device exact_div "[100, 20000, 20500]"
        demo_full_buffer 34000 demo_after_overflow]
    by blast
qed

text \<open>The claim as written fails where it has the change counter reset to 0: the fresh
  device fed 67 data intervals of 500 microseconds has a change counter of 67, and the next
  data interval leaves it at 1, with the interval stored in slot 0.\<close>

theorem rx_buffer_bounds_counterexample:
  "rx_intervals exact_div (replicate 67 500) demo_device = Inr demo_full_buffer
   \<and> MAX_CHANGES \<le> rx_change_count demo_full_buffer
   \<and> rx_callback exact_div 34000 demo_full_buffer = Inr demo_after_overflow
   \<and> rx_change_count demo_after_overflow \<noteq> 0"
  by code_simp

subsection \<open>From the transmitter to the receiver\<close>

lemma rx_intervals_append:
  "rx_intervals fdiv (xs @ ys) dev =
     (case rx_intervals fdiv xs dev of Inl e \<Rightarrow> Inl e | Inr d \<Rightarrow> rx_intervals fdiv ys d)"
  by (induction xs arbitrary: dev) (auto split: sum.splits)

lemma rx_intervals_data:
  assumes "rx_buffer_ok dev"
    and "list_all (\<lambda>d. THRESHOLD_TICK < d \<and> d \<le> THRESHOLD_SYNC) ds"
    and "rx_change_count dev + int (length ds) \<le> MAX_CHANGES"
  shows "rx_intervals fdiv ds dev =
     Inr (dev\<lparr>rx_timings := take (nat (rx_change_count dev)) (rx_timings dev) @ ds
                              @ drop (nat (rx_change_count dev) + length ds) (rx_timings dev),
              rx_change_count := rx_change_count dev + int (length ds),
              rx_last_timestamp := rx_last_timestamp dev + sum_list ds\<rparr>)"
  using assms
proof (induction ds arbitrary: dev)
  case Nil
  then show ?case by simp
next
  case (Cons d ds)
  let ?c = "nat (rx_change_count dev)"
  let ?T = "rx_timings dev"
  let ?d1 = "dev\<lparr>rx_timings := ?T[?c := d],
                  rx_change_count := rx_change_count dev + 1,
                  rx_last_timestamp := rx_last_timestamp dev + d\<rparr>"
  have d: "THRESHOLD_TICK < d" "d \<le> THRESHOLD_SYNC" using Cons.prems(2) by simp_all
  have cc: "0 \<le> rx_change_count dev" "rx_change_count dev < MAX_CHANGES"
    "length ?T = 68"
    using Cons.prems(1,3) by (simp_all add: rx_buffer_ok_def MAX_CHANGES_def)
  have step: "rx_callback fdiv (rx_last_timestamp dev + d) dev = Inr ?d1"
    using rx_callback_data_eq[of "rx_last_timestamp dev + d" dev] d Cons.prems(1) cc
    by simp
  have ok1: "rx_buffer_ok ?d1"
    using Cons.prems(1) cc by (simp add: rx_buffer_ok_def MAX_CHANGES_def)
  have all1: "list_all (\<lambda>d. THRESHOLD_TICK < d \<and> d \<le> THRESHOLD_SYNC) ds"
    using Cons.prems(2) by simp
  have room1: "rx_change_count ?d1 + int (length ds) \<le> MAX_CHANGES"
    using Cons.prems(3) by simp
  have clt: "?c < length ?T" using cc by (simp add: MAX_CHANGES_def)
  have n1: "nat (rx_change_count dev + 1) = Suc ?c" using cc by simp
  have tk: "take (Suc ?c) (?T[?c := d]) = take ?c ?T @ [d]"
    using clt by (simp add: take_Suc_conv_app_nth)
  have dr: "drop (Suc ?c + length ds) (?T[?c := d]) = drop (Suc ?c + length ds) ?T"
    by simp
  show ?case
    using Cons.IH[OF ok1 all1 room1] step
    by (simp add: n1 tk dr add.assoc)
qed


lemma float_division_exact: "float_division exact_div"
proof -
  have "\<exists>w. exact_div a b = Some w
           \<and> (\<forall>i. \<bar>i\<bar> < 2 ^ 24 \<longrightarrow>
                 (a \<le> i * b \<longrightarrow> w \<le> real_of_int i) \<and> (i * b \<le> a \<longrightarrow> real_of_int i \<le> w))
           \<and> (0 < a \<longrightarrow> 0 < w)" if b: "0 < b" for a b :: int
  proof -
    have rb: "0 < real_of_int b" using b by simp
    have le: "real_of_int a / real_of_int b \<le> real_of_int i" if "a \<le> i * b" for i
    proof -
      from that have "real_of_int a \<le> real_of_int (i * b)" by (simp only: of_int_le_iff)
      then have "real_of_int a \<le> real_of_int i * real_of_int b" by simp
      then show ?thesis using rb by (simp add: pos_divide_le_eq)
    qed
    have ge: "real_of_int i \<le> real_of_int a / real_of_int b" if "i * b \<le> a" for i
    proof -
      from that have "real_of_int (i * b) \<le> real_of_int a" by (simp only: of_int_le_iff)
      then have "real_of_int i * real_of_int b \<le> real_of_int a" by simp
      then show ?thesis using rb by (simp add: pos_le_divide_eq)
    qed
    have pos: "0 < real_of_int a / real_of_int b" if "0 < a"
      using that rb by simp
    show ?thesis using le ge pos by (simp add: exact_div_def)
  qed
  then show ?thesis unfolding float_division_def by blast
qed

lemma float_division_quotient:
  assumes "float_division fdiv" and "0 < b" and "b < 2 ^ 24" and "\<bar>a\<bar> < 2 ^ 24"
  obtains w where "fdiv a b = Some w"
    and "\<And>i. \<bar>i\<bar> < 2 ^ 24 \<Longrightarrow> a \<le> i * b \<Longrightarrow> w \<le> real_of_int i"
    and "\<And>i. \<bar>i\<bar> < 2 ^ 24 \<Longrightarrow> i * b \<le> a \<Longrightarrow> real_of_int i \<le> w"
    and "0 < a \<Longrightarrow> 0 < w"
  using assms unfolding float_division_def by blast

lemma py_int_of_int: "py_int (real_of_int i) = i"
  by (simp add: py_int_def)

lemma py_int_between:
  assumes "0 \<le> w" and "w \<le> real_of_int t"
  shows "0 \<le> py_int w \<and> py_int w \<le> t"
proof -
  have "py_int w = \<lfloor>w\<rfloor>" using assms(1) by (simp add: py_int_def)
  moreover have "0 \<le> \<lfloor>w\<rfloor>" using assms(1) by simp
  moreover have "\<lfloor>w\<rfloor> \<le> t" using assms(2) by (simp add: floor_le_iff)
  ultimately show ?thesis by simp
qed

text \<open>The timing unit the decoder derives from a slot between 0 and a tenth of a second.\<close>

lemma fdiv_delay:
  assumes "float_division fdiv" and "0 < s" and "s < 2 ^ 24" and "0 \<le> t" and "t \<le> 100000"
  obtains q where "fdiv t s = Some q" and "0 \<le> py_int q" and "py_int q \<le> t"
proof -
  have a: "\<bar>t\<bar> < 2 ^ 24" using assms(4,5) by simp
  from float_division_quotient[OF assms(1-3) a]
  obtain w where w: "fdiv t s = Some w"
    and le: "\<And>i. \<bar>i\<bar> < 2 ^ 24 \<Longrightarrow> t \<le> i * s \<Longrightarrow> w \<le> real_of_int i"
    and ge: "\<And>i. \<bar>i\<bar> < 2 ^ 24 \<Longrightarrow> i * s \<le> t \<Longrightarrow> real_of_int i \<le> w"
    by blast
  have "t \<le> t * s" using assms(2,4) by (simp add: mult_le_cancel_left1)
  then have 1: "w \<le> real_of_int t" using le[OF a] by simp
  have 2: "0 \<le> w" using ge[of 0] assms(4) by simp
  from py_int_between[OF 2 1] w show ?thesis using that by blast
qed

lemma fdiv_window:
  assumes "float_division fdiv" and "0 \<le> d" and "d \<le> 100000" and "\<bar>tol\<bar> \<le> 100"
  obtains w where "fdiv (d * tol) 100 = Some w"
proof -
  have "\<bar>d * tol\<bar> = d * \<bar>tol\<bar>" using assms(2) by (simp add: abs_mult)
  also have "\<dots> \<le> 100000 * 100"
    using assms(2-4) by (intro mult_mono) simp_all
  finally have ab: "\<bar>d * tol\<bar> < 2 ^ 24" by simp
  have c: "(0::int) < 100" "(100::int) < 2 ^ 24" by simp_all
  from float_division_quotient[OF assms(1) c ab] that show ?thesis by blast
qed

lemma PROTOCOLS_sync_low_range:
  assumes "py_getitem Protocols PROTOCOLS i = Inr (Some p)"
  shows "0 < sync_low p \<and> sync_low p < 2 ^ 24"
proof -
  from assms have "(0 \<le> i \<and> i < int (length PROTOCOLS) \<and> PROTOCOLS ! nat i = Some p)
      \<or> (- int (length PROTOCOLS) \<le> i \<and> i < 0
          \<and> PROTOCOLS ! nat (int (length PROTOCOLS) + i) = Some p)"
    by (auto simp: py_getitem_def py_index_def split: if_splits)
  then have "Some p \<in> set PROTOCOLS"
  proof
    assume a: "0 \<le> i \<and> i < int (length PROTOCOLS) \<and> PROTOCOLS ! nat i = Some p"
    then have "nat i < length PROTOCOLS" by auto
    from nth_mem[OF this] a show ?thesis by simp
  next
    assume a: "- int (length PROTOCOLS) \<le> i \<and> i < 0
          \<and> PROTOCOLS ! nat (int (length PROTOCOLS) + i) = Some p"
    then have "nat (int (length PROTOCOLS) + i) < length PROTOCOLS" by auto
    from nth_mem[OF this] a show ?thesis by simp
  qed
  then show ?thesis by (auto simp: PROTOCOLS_def Protocol_def)
qed

text \<open>On a bounded buffer the decoder raises nothing.\<close>

lemma rx_waveform_returns:
  assumes "float_division fdiv"
    and "py_getitem Protocols PROTOCOLS pnum = Inr (Some p)"
    and "list_all (\<lambda>t. 0 \<le> t \<and> t \<le> 100000) (rx_timings dev)"
    and "rx_timings dev \<noteq> []"
    and "change_count < int (length (rx_timings dev))"
    and "\<bar>rx_tolerance dev\<bar> \<le> 100"
  shows "\<exists>r. rx_waveform fdiv pnum change_count timestamp dev = Inr r"
proof -
  have t0: "0 \<le> rx_timings dev ! 0" "rx_timings dev ! 0 \<le> 100000"
    using assms(3,4) by (cases "rx_timings dev"; simp)+
  note sl = PROTOCOLS_sync_low_range[OF assms(2)]
  from fdiv_delay[OF assms(1) conjunct1[OF sl] conjunct2[OF sl] t0]
  obtain q where q: "fdiv (rx_timings dev ! 0) (sync_low p) = Some q"
    "0 \<le> py_int q" "py_int q \<le> rx_timings dev ! 0"
    by blast
  have "py_int q \<le> 100000" using q(3) t0(2) by simp
  from fdiv_window[OF assms(1) q(2) this assms(6)]
  obtain w where w: "fdiv (py_int q * rx_tolerance dev) 100 = Some w" by blast
  have "\<not> isl (rx_waveform fdiv pnum change_count timestamp dev)"
    by (simp add: rx_waveform_decides[OF assms(2,4,5)] q(1) w)
  then show ?thesis
    by (cases "rx_waveform fdiv pnum change_count timestamp dev") simp_all
qed

lemma list_all_update:
  "list_all P xs \<Longrightarrow> P v \<Longrightarrow> list_all P (xs[k := v])"
  using set_update_subset_insert[of xs k v] by (auto simp: list_all_iff)

lemma rx_callback_total:
  assumes "float_division fdiv" and "rx_bounded dev"
    and "py_getitem Protocols PROTOCOLS (rx_proto dev) = Inr (Some p)"
    and "\<bar>rx_tolerance dev\<bar> \<le> 100"
    and "timestamp - rx_last_timestamp dev \<le> 100000"
  shows "\<exists>dev'. rx_callback fdiv timestamp dev = Inr dev' \<and> rx_bounded dev'
           \<and> rx_proto dev' = rx_proto dev \<and> rx_tolerance dev' = rx_tolerance dev"
proof -
  let ?dur = "timestamp - rx_last_timestamp dev"
  have ok: "rx_buffer_ok dev"
    and bd: "list_all (\<lambda>t. 0 \<le> t \<and> t \<le> 100000) (rx_timings dev)"
    using assms(2) by (simp_all add: rx_bounded_def)
  have ne: "rx_timings dev \<noteq> []"
    using ok by (auto simp: rx_buffer_ok_def MAX_CHANGES_def)
  consider (noise) "?dur \<le> THRESHOLD_TICK"
    | (data) "THRESHOLD_TICK < ?dur" "?dur \<le> THRESHOLD_SYNC"
    | (sync) "THRESHOLD_SYNC < ?dur"
    by linarith
  then show ?thesis
  proof cases
    case noise
    then show ?thesis using ok bd
      by (simp add: rx_callback_def Let_def rx_buffer_ok_def rx_bounded_def)
  next
    case data
    have d: "0 \<le> ?dur \<and> ?dur \<le> 100000"
      using data by (simp add: THRESHOLD_TICK_def THRESHOLD_SYNC_def)
    have "list_all (\<lambda>t. 0 \<le> t \<and> t \<le> 100000) ((rx_timings dev)[k := ?dur])" for k
      using list_all_update[OF bd, of ?dur k] d by simp
    then show ?thesis using ok
      by (simp add: rx_callback_data_eq[OF data ok] rx_buffer_ok_def rx_bounded_def
          MAX_CHANGES_def)
  next
    case sync
    let ?d0 = "dev\<lparr>rx_repeat_count := rx_repeat_count dev + 1,
                     rx_change_count := rx_change_count dev - 1\<rparr>"
    have 1: "list_all (\<lambda>t. 0 \<le> t \<and> t \<le> 100000) (rx_timings ?d0)" using bd by simp
    have 2: "rx_timings ?d0 \<noteq> []" using ne by simp
    have 3: "rx_change_count dev - 1 < int (length (rx_timings ?d0))"
      using ok by (simp add: rx_buffer_ok_def MAX_CHANGES_def)
    have 4: "\<bar>rx_tolerance ?d0\<bar> \<le> 100" using assms(4) by simp
    from rx_waveform_returns[OF assms(1,3) 1 2 3 4, of timestamp]
    obtain r where "rx_waveform fdiv (rx_proto dev) (rx_change_count dev - 1) timestamp ?d0 = Inr r"
      by blast
    then obtain dev' where r: "rx_callback fdiv timestamp dev = Inr dev'"
      using rx_callback_sync_eq[OF sync ne, of fdiv] by (auto split: if_splits)
    note res = rx_callback_sync_result[OF sync ne r]
    have d: "0 \<le> ?dur \<and> ?dur \<le> 100000"
      using sync assms(5) by (simp add: THRESHOLD_SYNC_def)
    have "list_all (\<lambda>t. 0 \<le> t \<and> t \<le> 100000) (rx_timings dev')"
      using list_all_update[OF bd, of ?dur 0] d res by simp
    moreover have "rx_buffer_ok dev'"
      using res ok by (simp add: rx_buffer_ok_def MAX_CHANGES_def)
    ultimately show ?thesis using r res by (simp add: rx_bounded_def)
  qed
qed

lemma rx_intervals_total:
  assumes "float_division fdiv" and "rx_bounded dev"
    and "py_getitem Protocols PROTOCOLS (rx_proto dev) = Inr (Some p)"
    and "\<bar>rx_tolerance dev\<bar> \<le> 100"
    and "list_all (\<lambda>d. d \<le> 100000) ds"
  shows "\<exists>dev'. rx_intervals fdiv ds dev = Inr dev' \<and> rx_bounded dev'
           \<and> rx_proto dev' = rx_proto dev \<and> rx_tolerance dev' = rx_tolerance dev"
  using assms(2-5)
proof (induction ds arbitrary: dev)
  case Nil
  then show ?case by simp
next
  case (Cons d ds)
  have dur: "(rx_last_timestamp dev + d) - rx_last_timestamp dev \<le> 100000"
    using Cons.prems(4) by simp
  from rx_callback_total[OF assms(1) Cons.prems(1-3) dur]
  obtain d1 where d1: "rx_callback fdiv (rx_last_timestamp dev + d) dev = Inr d1" "rx_bounded d1"
      "rx_proto d1 = rx_proto dev" "rx_tolerance d1 = rx_tolerance dev"
    by blast
  have p1: "py_getitem Protocols PROTOCOLS (rx_proto d1) = Inr (Some p)"
    using Cons.prems(2) d1(3) by simp
  have t1: "\<bar>rx_tolerance d1\<bar> \<le> 100" using Cons.prems(3) d1(4) by simp
  have r1: "list_all (\<lambda>d. d \<le> 100000) ds" using Cons.prems(4) by simp
  from Cons.IH[OF d1(2) p1 t1 r1]
  obtain d2 where "rx_intervals fdiv ds d1 = Inr d2 \<and> rx_bounded d2
           \<and> rx_proto d2 = rx_proto d1 \<and> rx_tolerance d2 = rx_tolerance d1"
    by auto
  then show ?case using d1 by simp
qed

lemma unit_us_pos: "framed_protocol p \<Longrightarrow> 0 < unit_us p"
proof -
  assume f: "framed_protocol p"
  then have "0 < sync_low p" "0 < sync_low p * unit_us p"
    by (simp_all add: framed_protocol_def unit_us_def THRESHOLD_SYNC_def)
  then show ?thesis by (simp add: zero_less_mult_iff)
qed

lemma sync_low_is_sync:
  "framed_protocol p \<Longrightarrow> THRESHOLD_SYNC < sync_low p * unit_us p"
  by (simp add: framed_protocol_def unit_us_def)

lemma sync_low_bounded:
  "framed_protocol p \<Longrightarrow> sync_low p * unit_us p \<le> 100000"
  by (simp add: framed_protocol_def unit_us_def)

lemma frame_data_intervals:
  assumes "framed_protocol p"
  shows "list_all (\<lambda>d. THRESHOLD_TICK < d \<and> d \<le> THRESHOLD_SYNC)
           (concat (map (bit_intervals p) bits) @ [sync_high p * unit_us p])"
proof -
  have b: "list_all (\<lambda>d. THRESHOLD_TICK < d \<and> d \<le> THRESHOLD_SYNC) (bit_intervals p c)" for c
    using assms by (simp add: framed_protocol_def bit_intervals_def unit_us_def)
  have "list_all (\<lambda>d. THRESHOLD_TICK < d \<and> d \<le> THRESHOLD_SYNC)
           (concat (map (bit_intervals p) bits))"
    by (induction bits) (simp_all add: b)
  moreover have "THRESHOLD_TICK < sync_high p * unit_us p \<and> sync_high p * unit_us p \<le> THRESHOLD_SYNC"
    using assms by (simp add: framed_protocol_def unit_us_def)
  ultimately show ?thesis by simp
qed

lemma frame_data_bounded:
  assumes "framed_protocol p"
  shows "list_all (\<lambda>d. 0 \<le> d \<and> d \<le> 100000)
           (concat (map (bit_intervals p) bits) @ [sync_high p * unit_us p])"
proof -
  define L where "L = concat (map (bit_intervals p) bits) @ [sync_high p * unit_us p]"
  have "\<forall>d\<in>set L. THRESHOLD_TICK < d \<and> d \<le> THRESHOLD_SYNC"
    using frame_data_intervals[OF assms, of bits] unfolding L_def list_all_iff .
  then have "\<forall>d\<in>set L. 0 \<le> d \<and> d \<le> 100000"
    by (fastforce simp: THRESHOLD_TICK_def THRESHOLD_SYNC_def)
  then show ?thesis unfolding L_def list_all_iff .
qed

lemma rx_frame_any:
  assumes "float_division fdiv" and "framed_protocol p"
    and "py_getitem Protocols PROTOCOLS (rx_proto dev) = Inr (Some p)"
    and "rx_bounded dev" and "\<bar>rx_tolerance dev\<bar> \<le> 100"
  shows "\<exists>dev'. rx_intervals fdiv (frame_intervals p bits) dev = Inr dev' \<and> rx_synced p dev'
           \<and> rx_proto dev' = rx_proto dev \<and> rx_tolerance dev' = rx_tolerance dev"
proof -
  let ?xs = "concat (map (bit_intervals p) bits) @ [sync_high p * unit_us p]"
  let ?s = "sync_low p * unit_us p"
  have fr: "frame_intervals p bits = ?xs @ [?s]"
    by (simp add: frame_intervals_def)
  have xs: "list_all (\<lambda>d. d \<le> 100000) ?xs"
  proof -
    have "\<forall>d\<in>set ?xs. 0 \<le> d \<and> d \<le> 100000"
      using frame_data_bounded[OF assms(2), of bits] unfolding list_all_iff .
    then have "\<forall>d\<in>set ?xs. d \<le> 100000" by blast
    then show ?thesis unfolding list_all_iff .
  qed
  from rx_intervals_total[OF assms(1,4,3,5) xs]
  obtain d1 where d1: "rx_intervals fdiv ?xs dev = Inr d1" "rx_bounded d1"
      "rx_proto d1 = rx_proto dev" "rx_tolerance d1 = rx_tolerance dev"
    by blast
  have p1: "py_getitem Protocols PROTOCOLS (rx_proto d1) = Inr (Some p)"
    using assms(3) d1(3) by simp
  have t1: "\<bar>rx_tolerance d1\<bar> \<le> 100" using assms(5) d1(4) by simp
  have dur: "(rx_last_timestamp d1 + ?s) - rx_last_timestamp d1 \<le> 100000"
    using sync_low_bounded[OF assms(2)] by simp
  from rx_callback_total[OF assms(1) d1(2) p1 t1 dur]
  obtain d2 where d2: "rx_callback fdiv (rx_last_timestamp d1 + ?s) d1 = Inr d2" "rx_bounded d2"
      "rx_proto d2 = rx_proto d1" "rx_tolerance d2 = rx_tolerance d1"
    by blast
  have ne: "rx_timings d1 \<noteq> []"
    using d1(2) by (auto simp: rx_bounded_def rx_buffer_ok_def MAX_CHANGES_def)
  have sy: "THRESHOLD_SYNC < (rx_last_timestamp d1 + ?s) - rx_last_timestamp d1"
    using sync_low_is_sync[OF assms(2)] by simp
  from rx_callback_sync_result[OF sy ne d2(1)] ne
  have "rx_change_count d2 = 1" "rx_timings d2 ! 0 = ?s"
    by simp_all
  then have "rx_synced p d2" using d2(2) by (simp add: rx_synced_def)
  moreover have "rx_intervals fdiv (frame_intervals p bits) dev = Inr d2"
  proof -
    have "rx_intervals fdiv (?xs @ [?s]) dev = rx_intervals fdiv [?s] d1"
      by (simp only: rx_intervals_append[of fdiv ?xs "[?s]" dev] d1(1) sum.case)
    also have "\<dots> = Inr d2" using d2(1) by simp
    finally show ?thesis by (simp only: fr)
  qed
  ultimately show ?thesis using d1 d2 by auto
qed

lemma py_range_odd:
  "k \<le> n \<Longrightarrow>
   py_range (2 * int k + 1) (2 * int n + 1) 2 = map (\<lambda>j. 2 * int j + 1) [k..<n]"
proof (induction "n - k" arbitrary: k)
  case 0
  then have "k = n" by simp
  then show ?case by (simp add: py_range.simps[of "2 * int n + 1"])
next
  case (Suc m)
  then have lt: "k < n" by simp
  have ih: "py_range (2 * int (Suc k) + 1) (2 * int n + 1) 2 = map (\<lambda>j. 2 * int j + 1) [Suc k..<n]"
    using Suc(1)[of "Suc k"] Suc(2) lt by simp
  have s: "2 * int k + 1 + 2 = 2 * int (Suc k) + 1" by simp
  show ?case
    using lt ih
    by (subst py_range.simps) (simp only: s, simp add: upt_conv_Cons)
qed

lemma nth_concat_pairs:
  assumes "\<And>c. length (f c) = 2" and "j < length bits"
  shows "(concat (map f bits) @ zs) ! (2 * j) = f (bits ! j) ! 0
       \<and> (concat (map f bits) @ zs) ! (2 * j + 1) = f (bits ! j) ! 1"
  using assms(2)
proof (induction bits arbitrary: j)
  case Nil
  then show ?case by simp
next
  case (Cons b bits)
  show ?case
  proof (cases j)
    case 0
    then show ?thesis using assms(1)[of b] by (simp add: nth_append)
  next
    case (Suc i)
    then have "i < length bits" using Cons.prems by simp
    from Cons.IH[OF this] show ?thesis
      using Suc assms(1)[of b] by (simp add: nth_append)
  qed
qed

lemma length_bit_intervals: "length (bit_intervals p c) = 2"
  by (simp add: bit_intervals_def)

lemma length_concat_bit_intervals:
  "length (concat (map (bit_intervals p) bits)) = 2 * length bits"
  by (induction bits) (simp_all add: length_bit_intervals)


text \<open>The timing unit the decoder derives from the sync of a framed protocol is the unit
  of the transmitter: the quotient is an integer below \<open>2 ^ 24\<close>.\<close>

lemma fdiv_unit:
  assumes "float_division fdiv" and "framed_protocol p"
  obtains q where "fdiv (sync_low p * unit_us p) (sync_low p) = Some q"
    and "py_int q = unit_us p"
proof -
  let ?s = "sync_low p" and ?u = "unit_us p"
  have u: "0 < ?u" using unit_us_pos[OF assms(2)] .
  have s: "0 < ?s" using assms(2) by (simp add: framed_protocol_def)
  have a: "?s * ?u \<le> 100000" using sync_low_bounded[OF assms(2)] .
  have "?s \<le> ?s * ?u" using u s by (simp add: mult_le_cancel_left1)
  then have "?s \<le> 100000" using a by linarith
  then have sb: "?s < 2 ^ 24" by simp
  have "?u \<le> ?s * ?u" using u s by (simp add: mult_le_cancel_right1)
  then have "?u \<le> 100000" using a by linarith
  then have ub: "\<bar>?u\<bar> < 2 ^ 24" using u by simp
  have "0 < ?s * ?u" using u s by simp
  then have ab: "\<bar>?s * ?u\<bar> < 2 ^ 24" using a by simp
  from float_division_quotient[OF assms(1) s sb ab]
  obtain w where w: "fdiv (?s * ?u) ?s = Some w"
    and le: "\<And>i. \<bar>i\<bar> < 2 ^ 24 \<Longrightarrow> ?s * ?u \<le> i * ?s \<Longrightarrow> w \<le> real_of_int i"
    and ge: "\<And>i. \<bar>i\<bar> < 2 ^ 24 \<Longrightarrow> i * ?s \<le> ?s * ?u \<Longrightarrow> real_of_int i \<le> w"
    by blast
  have "w \<le> real_of_int ?u" using le[OF ub] by (simp add: mult.commute)
  moreover have "real_of_int ?u \<le> w" using ge[OF ub] by (simp add: mult.commute)
  ultimately have "w = real_of_int ?u" by simp
  then have "py_int w = ?u" by (simp add: py_int_of_int)
  then show ?thesis using w that by blast
qed

lemma framed_unit_bound:
  assumes "framed_protocol p"
  shows "unit_us p \<le> 15000"
proof -
  let ?u = "unit_us p"
  have u: "0 < ?u" using unit_us_pos[OF assms] .
  have z: "300 < zero_high p * ?u" "zero_high p * ?u \<le> 15000"
    using assms by (simp_all add: framed_protocol_def unit_us_def THRESHOLD_TICK_def
        THRESHOLD_SYNC_def)
  have "0 < zero_high p * ?u" using z(1) by linarith
  then have "0 < zero_high p"
    using u by (auto simp: zero_less_mult_iff)
  then have "?u \<le> zero_high p * ?u" using u by (simp add: mult_le_cancel_right1)
  then show ?thesis using z(2) by simp
qed

text \<open>The tolerance window for a unit of at most 15000 and a tolerance of at most 100
  percent: any float division gives a positive window that no deviation of a whole unit
  or more lies below.\<close>

lemma fdiv_tolerance_window:
  assumes "float_division fdiv" and "0 < u" and "u \<le> 15000" and "0 < tol" and "tol \<le> 100"
  obtains w where "fdiv (u * tol) 100 = Some w" and "0 < w"
    and "\<And>d. u \<le> d \<Longrightarrow> d < 2 ^ 24 \<Longrightarrow> w \<le> real_of_int d"
proof -
  have p: "0 < u * tol" using assms(2,4) by simp
  have "u * tol \<le> 15000 * 100"
    using assms(2-5) by (intro mult_mono) simp_all
  then have ab: "\<bar>u * tol\<bar> < 2 ^ 24" using p by simp
  have c: "(0::int) < 100" "(100::int) < 2 ^ 24" by simp_all
  from float_division_quotient[OF assms(1) c ab]
  obtain w where w: "fdiv (u * tol) 100 = Some w"
    and le: "\<And>i. \<bar>i\<bar> < 2 ^ 24 \<Longrightarrow> u * tol \<le> i * 100 \<Longrightarrow> w \<le> real_of_int i"
    and pos: "0 < u * tol \<Longrightarrow> 0 < w"
    by blast
  have off: "w \<le> real_of_int d" if "u \<le> d" "d < 2 ^ 24" for d
  proof -
    have "u * tol \<le> u * 100" using assms(2,5) by simp
    also have "\<dots> \<le> d * 100" using that(1) by simp
    finally have "u * tol \<le> d * 100" .
    moreover have "\<bar>d\<bar> < 2 ^ 24" using that assms(2) by simp
    ultimately show ?thesis using le by blast
  qed
  show ?thesis using that[OF w pos[OF p] off] .
qed

lemma deviation_of_units:
  assumes "0 < (u::int)" and "m \<noteq> k"
    and "0 < m * u" and "m * u \<le> 15000" and "0 < k * u" and "k * u \<le> 15000"
  shows "u \<le> \<bar>m * u - u * k\<bar>" and "\<bar>m * u - u * k\<bar> < 2 ^ 24"
proof -
  define a where "a = \<bar>m * u - u * k\<bar>"
  have "m * u - u * k = (m - k) * u" by (simp add: algebra_simps)
  then have "a = \<bar>m - k\<bar> * \<bar>u\<bar>" unfolding a_def by (simp only: abs_mult)
  then have "a = \<bar>m - k\<bar> * u" using assms(1) by simp
  moreover have "1 \<le> \<bar>m - k\<bar>" using assms(2) by simp
  ultimately have "u \<le> a"
    using assms(1) by (simp add: mult_le_cancel_right1)
  then show "u \<le> \<bar>m * u - u * k\<bar>" unfolding a_def .
  have "\<bar>m * u - u * k\<bar> \<le> 15000"
    using assms(3-6) by (simp add: mult.commute abs_le_iff)
  then show "\<bar>m * u - u * k\<bar> < 2 ^ 24" by simp
qed

lemma framed_protocol_high: "framed_protocol p \<Longrightarrow> one_high p \<noteq> zero_high p"
  by (auto simp: framed_protocol_def)

lemma rx_pair_of_bit:
  assumes "float_division fdiv" and "framed_protocol p"
    and "0 < tol" and "tol \<le> 100"
    and "fdiv (unit_us p * tol) 100 = Some w"
    and "rx_timings dev = (sync_low p * unit_us p) # concat (map (bit_intervals p) bits) @ rest"
    and "j < length bits"
  shows "pair_is_zero dev p (unit_us p) w (2 * int j + 1) \<longleftrightarrow> bits ! j = CHR ''0''"
    and "bits ! j \<noteq> CHR ''0'' \<Longrightarrow> pair_is_one dev p (unit_us p) w (2 * int j + 1)"
proof -
  let ?u = "unit_us p"
  have u: "0 < ?u" using unit_us_pos[OF assms(2)] .
  from fdiv_tolerance_window[OF assms(1) u framed_unit_bound[OF assms(2)] assms(3,4)] assms(5)
  have wpos: "0 < w" and woff: "\<And>d. ?u \<le> d \<Longrightarrow> d < 2 ^ 24 \<Longrightarrow> w \<le> real_of_int d"
    by auto
  have hi: "0 < one_high p * ?u" "one_high p * ?u \<le> 15000"
       "0 < zero_high p * ?u" "zero_high p * ?u \<le> 15000"
    using assms(2) by (simp_all add: framed_protocol_def unit_us_def THRESHOLD_TICK_def
        THRESHOLD_SYNC_def)
  note dev = deviation_of_units[OF u framed_protocol_high[OF assms(2)] hi]
  have off: "\<not> real_of_int \<bar>one_high p * ?u - ?u * zero_high p\<bar> < w"
    using woff[OF dev] by simp
  have ex: "real_of_int \<bar>m * ?u - ?u * m\<bar> < w" for m
    using wpos by (simp add: mult.commute)
  have n1: "nat (2 * int j + 1) = Suc (2 * j)" by simp
  have n2: "nat (2 * int j + 1 + 1) = Suc (2 * j + 1)" by simp
  note nth = nth_concat_pairs[of "bit_intervals p" j bits rest, OF length_bit_intervals assms(7)]
  have a: "rx_timings dev ! nat (2 * int j + 1) = bit_intervals p (bits ! j) ! 0"
    by (simp only: n1 assms(6) nth_Cons_Suc nth)
  have b: "rx_timings dev ! nat (2 * int j + 1 + 1) = bit_intervals p (bits ! j) ! 1"
    by (simp only: n2 assms(6) nth_Cons_Suc nth)
  let ?A0 = "bit_intervals p (bits ! j) ! 0"
  let ?A1 = "bit_intervals p (bits ! j) ! 1"
  have z_iff: "pair_is_zero dev p ?u w (2 * int j + 1) \<longleftrightarrow>
      real_of_int \<bar>?A0 - ?u * zero_high p\<bar> < w \<and> real_of_int \<bar>?A1 - ?u * zero_low p\<bar> < w"
    by (simp only: pair_is_zero_def pair_matches_def a b)
  have o_iff: "pair_is_one dev p ?u w (2 * int j + 1) \<longleftrightarrow>
      real_of_int \<bar>?A0 - ?u * one_high p\<bar> < w \<and> real_of_int \<bar>?A1 - ?u * one_low p\<bar> < w"
    by (simp only: pair_is_one_def pair_matches_def a b)
  show "pair_is_zero dev p ?u w (2 * int j + 1) \<longleftrightarrow> bits ! j = CHR ''0''"
  proof (cases "bits ! j = CHR ''0''")
    case True
    then have A: "?A0 = zero_high p * ?u" "?A1 = zero_low p * ?u"
      by (simp_all add: bit_intervals_def)
    show ?thesis
      unfolding z_iff A using True ex[of "zero_high p"] ex[of "zero_low p"] by blast
  next
    case False
    then have A: "?A0 = one_high p * ?u" "?A1 = one_low p * ?u"
      by (simp_all add: bit_intervals_def)
    show ?thesis
      unfolding z_iff A using False off by blast
  qed
  show "pair_is_one dev p ?u w (2 * int j + 1)" if "bits ! j \<noteq> CHR ''0''"
  proof -
    from that have A: "?A0 = one_high p * ?u" "?A1 = one_low p * ?u"
      by (simp_all add: bit_intervals_def)
    show ?thesis
      unfolding o_iff A using ex[of "one_high p"] ex[of "one_low p"] by blast
  qed
qed

lemma foldl_nth_upt:
  "foldl (\<lambda>a j. h a (xs ! j)) a [0..<length xs] = foldl h a xs"
proof -
  have "foldl h a (map ((!) xs) [0..<length xs]) = foldl (\<lambda>a j. h a (xs ! j)) a [0..<length xs]"
    by (simp only: foldl_map)
  then show ?thesis by (simp only: map_nth)
qed

lemma rx_decode_frame:
  assumes "float_division fdiv" and "framed_protocol p"
    and "0 < tol" and "tol \<le> 100"
    and "fdiv (unit_us p * tol) 100 = Some w"
    and "rx_timings dev = (sync_low p * unit_us p) # concat (map (bit_intervals p) bits) @ rest"
  shows "frame_matches dev p (unit_us p) w (2 * int (length bits) + 1)
       \<and> frame_value dev p (unit_us p) w (2 * int (length bits) + 1) = bits_value bits"
proof -
  let ?g = "\<lambda>j. 2 * int j + 1"
  let ?u = "unit_us p"
  have r: "py_range 1 (2 * int (length bits) + 1) 2 = map ?g [0..<length bits]"
    using py_range_odd[of 0 "length bits"] by simp
  note pb = rx_pair_of_bit[OF assms]
  have "\<forall>j<length bits. pair_is_zero dev p ?u w (?g j) \<or> pair_is_one dev p ?u w (?g j)"
    using pb by blast
  then have m: "frame_matches dev p ?u w (2 * int (length bits) + 1)"
    unfolding frame_matches_def r by (simp add: list_all_iff)
  have "foldl (\<lambda>code i. if pair_is_zero dev p ?u w i then 2 * code else 2 * code + 1) 0
           (map ?g [0..<length bits])
      = foldl (\<lambda>code j. if pair_is_zero dev p ?u w (?g j) then 2 * code else 2 * code + 1) 0
           [0..<length bits]"
    by (simp only: foldl_map)
  also have "\<dots> = foldl (\<lambda>code j. if bits ! j = CHR ''0'' then 2 * code else 2 * code + 1) 0
           [0..<length bits]"
    by (rule foldl_cong) (simp_all add: pb(1))
  also have "\<dots> = bits_value bits"
    unfolding bits_value_def
    by (rule foldl_nth_upt[of "\<lambda>code c. if c = CHR ''0'' then 2 * code else 2 * code + 1"])
  finally show ?thesis using m by (simp add: frame_value_def r)
qed

lemma rx_frame_good:
  assumes "float_division fdiv" and "framed_protocol p"
    and "py_getitem Protocols PROTOCOLS (rx_proto dev) = Inr (Some p)"
    and "rx_synced p dev" and "0 < rx_tolerance dev" and "rx_tolerance dev \<le> 100"
    and "3 \<le> length bits" and "length bits \<le> 32" and "bits_value bits \<noteq> 0"
  shows "\<exists>dev'. rx_intervals fdiv (frame_intervals p bits) dev = Inr dev' \<and> rx_synced p dev'
           \<and> rx_proto dev' = rx_proto dev \<and> rx_tolerance dev' = rx_tolerance dev
           \<and> rx_code dev' = Some (bits_value bits)"
proof -
  let ?s = "sync_low p * unit_us p"
  let ?bs = "concat (map (bit_intervals p) bits)"
  let ?data = "?bs @ [sync_high p * unit_us p]"
  let ?T = "rx_timings dev"
  let ?n = "length bits"
  have n: "3 \<le> int ?n" "int ?n \<le> 32" using assms(7,8) by simp_all
  have bd: "rx_bounded dev" and cc: "rx_change_count dev = 1" and t0: "?T ! 0 = ?s"
    using assms(4) by (simp_all add: rx_synced_def)
  have ok: "rx_buffer_ok dev"
    and bT: "list_all (\<lambda>t. 0 \<le> t \<and> t \<le> 100000) ?T"
    using bd by (simp_all add: rx_bounded_def)
  have lenT: "length ?T = 68"
    using ok by (simp add: rx_buffer_ok_def MAX_CHANGES_def)
  have lend: "int (length ?data) = 2 * int ?n + 1"
    by (simp add: length_concat_bit_intervals)
  have room: "rx_change_count dev + int (length ?data) \<le> MAX_CHANGES"
    unfolding cc lend MAX_CHANGES_def using n by linarith
  define rest where "rest = [sync_high p * unit_us p]
                              @ drop (nat (rx_change_count dev) + length ?data) ?T"
  define d1 where "d1 = dev\<lparr>rx_timings := take (nat (rx_change_count dev)) ?T @ ?data
                @ drop (nat (rx_change_count dev) + length ?data) ?T,
                  rx_change_count := rx_change_count dev + int (length ?data),
                  rx_last_timestamp := rx_last_timestamp dev + sum_list ?data\<rparr>"
  have run: "rx_intervals fdiv ?data dev = Inr d1"
    unfolding d1_def
    by (rule rx_intervals_data[OF ok frame_data_intervals[OF assms(2)] room])
  have tk: "take (nat (rx_change_count dev)) ?T = [?s]"
  proof -
    have "take 1 ?T = [?T ! 0]" using lenT by (cases ?T) simp_all
    then show ?thesis by (simp add: cc t0)
  qed
  have T1: "rx_timings d1 = ?s # ?bs @ rest"
    unfolding d1_def rest_def by (simp add: tk)
  have lenT1: "length (rx_timings d1) = 68"
  proof -
    have "length ?data = 2 * ?n + 1" by (simp add: length_concat_bit_intervals)
    then show ?thesis
      unfolding d1_def using lenT assms(8) by (simp add: tk cc)
  qed
  have bT1: "list_all (\<lambda>t. 0 \<le> t \<and> t \<le> 100000) (rx_timings d1)"
  proof -
    have 1: "0 \<le> ?s \<and> ?s \<le> 100000"
      using sync_low_is_sync[OF assms(2)] sync_low_bounded[OF assms(2)]
      by (simp add: THRESHOLD_SYNC_def)
    have 2: "list_all (\<lambda>t. 0 \<le> t \<and> t \<le> 100000) ?data"
      by (rule frame_data_bounded[OF assms(2)])
    have 3: "list_all (\<lambda>t. 0 \<le> t \<and> t \<le> 100000)
               (drop (nat (rx_change_count dev) + length ?data) ?T)"
      using bT by (auto simp: list_all_iff dest: in_set_dropD)
    have "rx_timings d1 = [?s] @ ?data @ drop (nat (rx_change_count dev) + length ?data) ?T"
      unfolding d1_def by (simp add: tk)
    then show ?thesis using 1 2 3 by (simp only: list_all_append) simp
  qed
  have cc1: "rx_change_count d1 = 2 * int ?n + 2"
    unfolding d1_def using lend by (simp add: cc)
  have f1: "rx_proto d1 = rx_proto dev" "rx_tolerance d1 = rx_tolerance dev"
    unfolding d1_def by simp_all
  have ok1: "rx_buffer_ok d1"
    unfolding rx_buffer_ok_def MAX_CHANGES_def using lenT1 cc1 n by simp
  have bd1: "rx_bounded d1" using ok1 bT1 by (simp add: rx_bounded_def)
  have pr1: "py_getitem Protocols PROTOCOLS (rx_proto d1) = Inr (Some p)"
    using assms(3) f1 by simp
  have tl1: "\<bar>rx_tolerance d1\<bar> \<le> 100" using assms(5,6) f1 by simp
  define ts where "ts = rx_last_timestamp d1 + ?s"
  define d0 where "d0 = d1\<lparr>rx_repeat_count := rx_repeat_count d1 + 1,
                            rx_change_count := rx_change_count d1 - 1\<rparr>"
  have sy: "THRESHOLD_SYNC < ts - rx_last_timestamp d1"
    unfolding ts_def using sync_low_is_sync[OF assms(2)] by simp
  have dur: "ts - rx_last_timestamp d1 = ?s" unfolding ts_def by simp
  have durb: "ts - rx_last_timestamp d1 \<le> 100000"
    unfolding dur using sync_low_bounded[OF assms(2)] .
  have ne1: "rx_timings d1 \<noteq> []" using lenT1 by auto
  from rx_callback_total[OF assms(1) bd1 pr1 tl1 durb]
  obtain d2 where d2: "rx_callback fdiv ts d1 = Inr d2" "rx_bounded d2"
      "rx_proto d2 = rx_proto d1" "rx_tolerance d2 = rx_tolerance d1"
    by blast
  note res = rx_callback_sync_result[OF sy ne1 d2(1)]
  have "rx_timings d2 ! 0 = ?s"
    using res ne1 by (simp add: dur)
  then have synced: "rx_synced p d2"
    using res d2(2) by (simp add: rx_synced_def)
  have code: "rx_code d2 = Some (bits_value bits)"
  proof -
    have cnt: "rx_change_count d1 - 1 = 2 * int ?n + 1" using cc1 by simp
    have gt: "rx_change_count d1 - 1 > 1" unfolding cnt using n by linarith
    have T0: "rx_timings d0 = ?s # ?bs @ rest"
      unfolding d0_def using T1 by simp
    have t00: "rx_timings d0 ! 0 = ?s" unfolding T0 by simp
    have tol0: "0 < rx_tolerance d0" "rx_tolerance d0 \<le> 100"
      unfolding d0_def using assms(5,6) f1 by simp_all
    from fdiv_unit[OF assms(1,2)]
    obtain q where q: "fdiv ?s (sync_low p) = Some q" "py_int q = unit_us p" by blast
    from fdiv_tolerance_window[OF assms(1) unit_us_pos[OF assms(2)]
        framed_unit_bound[OF assms(2)] tol0]
    obtain w where w: "fdiv (unit_us p * rx_tolerance d0) 100 = Some w" by blast
    note dec = rx_decode_frame[OF assms(1,2) tol0 w T0]
    have ne0: "rx_timings d0 \<noteq> []" unfolding d0_def using ne1 by simp
    have "int (length (rx_timings d0)) = 68" unfolding d0_def using lenT1 by simp
    then have lt0: "2 * int ?n + 1 < int (length (rx_timings d0))"
      using n by linarith
    have "rx_change_count d0 = 2 * int ?n + 1" unfolding d0_def using cnt by simp
    then have six: "6 < rx_change_count d0" using n by linarith
    have "rx_waveform fdiv (rx_proto d1) (2 * int ?n + 1) ts d0 =
          Inr (True, d0\<lparr>rx_code := Some (bits_value bits), rx_code_timestamp := Some ts\<rparr>)"
      using rx_waveform_decides[OF pr1 ne0 lt0, of fdiv ts] dec six assms(9)
      by (simp add: t00 q w)
    then have wv: "rx_waveform fdiv (rx_proto d1) (rx_change_count d1 - 1) ts
            (d1\<lparr>rx_repeat_count := rx_repeat_count d1 + 1,
                 rx_change_count := rx_change_count d1 - 1\<rparr>) =
          Inr (True, d0\<lparr>rx_code := Some (bits_value bits), rx_code_timestamp := Some ts\<rparr>)"
      by (simp only: cnt d0_def)
    have "rx_callback fdiv ts d1 =
            Inr ((d0\<lparr>rx_code := Some (bits_value bits), rx_code_timestamp := Some ts\<rparr>)
                \<lparr>rx_timings := (rx_timings d1)[0 := ts - rx_last_timestamp d1],
                  rx_change_count := 1, rx_last_timestamp := ts\<rparr>)"
      using gt by (simp only: rx_callback_sync_eq[OF sy ne1] wv if_True sum.case snd_conv)
    then have "d2 = (d0\<lparr>rx_code := Some (bits_value bits), rx_code_timestamp := Some ts\<rparr>)
                \<lparr>rx_timings := (rx_timings d1)[0 := ts - rx_last_timestamp d1],
                  rx_change_count := 1, rx_last_timestamp := ts\<rparr>"
      using d2(1) by simp
    then show ?thesis by simp
  qed
  have "rx_intervals fdiv (frame_intervals p bits) dev = Inr d2"
  proof -
    have fr: "frame_intervals p bits = ?data @ [?s]"
      by (simp add: frame_intervals_def)
    have "rx_intervals fdiv (?data @ [?s]) dev = rx_intervals fdiv [?s] d1"
      by (simp only: rx_intervals_append[of fdiv ?data "[?s]" dev] run sum.case)
    also have "\<dots> = Inr d2" using d2(1) by (simp add: ts_def)
    finally show ?thesis by (simp only: fr)
  qed
  then show ?thesis using synced code d2(3,4) f1 by auto
qed

lemma rx_frames_synced:
  assumes "float_division fdiv" and "framed_protocol p" and "0 < tol" and "tol \<le> 100"
    and "3 \<le> length bits" and "length bits \<le> 32" and "bits_value bits \<noteq> 0"
  shows "py_getitem Protocols PROTOCOLS (rx_proto dev) = Inr (Some p) \<Longrightarrow>
         rx_synced p dev \<Longrightarrow> rx_tolerance dev = tol \<Longrightarrow>
         \<exists>dev'. rx_intervals fdiv (concat (replicate (Suc k) (frame_intervals p bits))) dev
                  = Inr dev'
               \<and> rx_code dev' = Some (bits_value bits)"
proof (induction k arbitrary: dev)
  case 0
  from rx_frame_good[OF assms(1,2) 0(1) 0(2) _ _ assms(5-7)] assms(3,4) 0(3)
  show ?case by auto
next
  case (Suc k)
  from rx_frame_good[OF assms(1,2) Suc(2) Suc(3) _ _ assms(5-7)] assms(3,4) Suc(4)
  obtain d1 where d1: "rx_intervals fdiv (frame_intervals p bits) dev = Inr d1" "rx_synced p d1"
      "rx_proto d1 = rx_proto dev" "rx_tolerance d1 = rx_tolerance dev"
    by auto
  have "py_getitem Protocols PROTOCOLS (rx_proto d1) = Inr (Some p)"
    using Suc(2) d1(3) by simp
  from Suc.IH[OF this d1(2)] d1(4) Suc(4)
  obtain d2 where d2:
      "rx_intervals fdiv (concat (replicate (Suc k) (frame_intervals p bits))) d1 = Inr d2"
      "rx_code d2 = Some (bits_value bits)"
    by auto
  have "rx_intervals fdiv (concat (replicate (Suc (Suc k)) (frame_intervals p bits))) dev
        = rx_intervals fdiv (concat (replicate (Suc k) (frame_intervals p bits))) d1"
    using rx_intervals_append[of fdiv "frame_intervals p bits"
        "concat (replicate (Suc k) (frame_intervals p bits))" dev] d1(1)
    by simp
  then show ?case using d2 by simp
qed

lemma rx_frames:
  assumes "float_division fdiv" and "framed_protocol p"
    and "0 < rx_tolerance dev" and "rx_tolerance dev \<le> 100"
    and "3 \<le> length bits" and "length bits \<le> 32" and "bits_value bits \<noteq> 0"
    and "py_getitem Protocols PROTOCOLS (rx_proto dev) = Inr (Some p)"
    and "rx_bounded dev" and "2 \<le> r"
  shows "\<exists>dev'. rx_intervals fdiv (concat (replicate r (frame_intervals p bits))) dev = Inr dev'
               \<and> rx_code dev' = Some (bits_value bits)"
proof -
  obtain k where r: "r = Suc (Suc k)"
    using assms(10) by (metis Suc_le_D numeral_2_eq_2 Suc_le_mono)
  have tl: "\<bar>rx_tolerance dev\<bar> \<le> 100" using assms(3,4) by simp
  from rx_frame_any[OF assms(1,2,8,9) tl, of bits]
  obtain d1 where d1: "rx_intervals fdiv (frame_intervals p bits) dev = Inr d1" "rx_synced p d1"
      "rx_proto d1 = rx_proto dev" "rx_tolerance d1 = rx_tolerance dev"
    by auto
  have p1: "py_getitem Protocols PROTOCOLS (rx_proto d1) = Inr (Some p)"
    using assms(8) d1(3) by simp
  from rx_frames_synced[OF assms(1,2) assms(3,4) assms(5-7) p1 d1(2) d1(4), of k]
  obtain d2 where d2:
      "rx_intervals fdiv (concat (replicate (Suc k) (frame_intervals p bits))) d1 = Inr d2"
      "rx_code d2 = Some (bits_value bits)"
    by auto
  have "rx_intervals fdiv (concat (replicate (Suc (Suc k)) (frame_intervals p bits))) dev
        = rx_intervals fdiv (concat (replicate (Suc k) (frame_intervals p bits))) d1"
    using rx_intervals_append[of fdiv "frame_intervals p bits"
        "concat (replicate (Suc k) (frame_intervals p bits))" dev] d1(1)
    by simp
  then show ?thesis using d2 r by simp
qed

lemma frame_events_intervals:
  assumes "tx_pulselength dev = pulselength p"
  shows "map snd (frame_events dev p bits) = frame_intervals p bits"
proof -
  have "map snd (bit_events dev p c) = bit_intervals p c" for c
    using assms by (simp add: bit_events_def wave_events_def bit_intervals_def unit_us_def)
  then have "map snd (concat (map (bit_events dev p) bits)) = concat (map (bit_intervals p) bits)"
    by (induction bits) simp_all
  then show ?thesis
    using assms by (simp add: frame_events_def frame_intervals_def wave_events_def unit_us_def)
qed

lemma map_snd_repeat:
  "map snd (concat (replicate n xs)) = concat (replicate n (map snd xs))"
  by (induction n) simp_all

lemma tx_rawcode_fits:
  assumes "0 \<le> code" and "int (length (bin_digits (nat code))) \<le> tx_length dev"
  shows "length (tx_rawcode dev code) = nat (tx_length dev)"
    and "bits_value (tx_rawcode dev code) = code"
  using assms by (simp_all add: tx_rawcode_nonneg bits_value_zeros bits_value_bin_digits)

lemma tx_code_intervals:
  assumes "tx_enabled dev" and "1 \<le> tx_proto dev" and "tx_proto dev \<le> 5"
    and "py_getitem Protocols PROTOCOLS (tx_proto dev) = Inr (Some p)"
    and "tx_pulselength dev = pulselength p"
    and "0 \<le> code" and "int (length (bin_digits (nat code))) \<le> tx_length dev"
  shows "tx_intervals (fst (tx_code code dev)) =
           concat (replicate (nat (tx_repeat dev)) (frame_intervals p (tx_rawcode dev code)))"
proof -
  have r: "0 < tx_proto dev" "tx_proto dev < 7" "tx_proto dev \<noteq> 6"
    using assms(2,3) by simp_all
  have p: "tx_protocol dev = Inr p" using assms(4) by (simp add: tx_protocol_def)
  note fits = tx_rawcode_fits[OF assms(6,7)]
  have len: "tx_length dev \<le> int (length (tx_rawcode dev code))"
    using fits(1) by simp
  have tk: "take (nat (tx_length dev)) (tx_rawcode dev code) = tx_rawcode dev code"
    using fits(1) by simp
  show ?thesis
    using tx_bin_events[OF assms(1) r(1,2) p len] r(3)
    by (simp add: tx_code_not6 tx_intervals_def tk map_snd_repeat
        frame_events_intervals[OF assms(5)])
qed

lemma framed_protocols:
  "framed_protocol (Protocol 350 1 31 1 3 3 1)"
  "framed_protocol (Protocol 650 1 10 1 2 2 1)"
  "framed_protocol (Protocol 100 30 71 4 11 9 6)"
  "framed_protocol (Protocol 500 6 14 1 2 2 1)"
  by (simp_all add: framed_protocol_def Protocol_def SCALE_TIME_US_def THRESHOLD_SYNC_def
      THRESHOLD_TICK_def)

lemma framed_protocol_ids:
  assumes "proto \<in> {1, 2, 3, 5}"
  shows "\<exists>p. py_getitem Protocols PROTOCOLS proto = Inr (Some p) \<and> framed_protocol p"
  using assms by (auto simp: PROTOCOLS_lookup framed_protocols)

lemma RFDevice_init_fields:
  assumes "RFDevice_init g proto None rep len tol = Inr dev"
    and "py_getitem Protocols PROTOCOLS proto = Inr (Some p)"
  shows "tx_proto dev = proto" "tx_pulselength dev = pulselength p" "tx_repeat dev = rep"
    "tx_length dev = len" "rx_proto dev = proto" "rx_tolerance dev = tol"
    "\<not> tx_enabled dev" "\<not> rx_enabled dev"
  using assms by (auto simp: RFDevice_init_def)

lemma RFDevice_init_bounded:
  "RFDevice_init g proto pl rep len tol = Inr dev \<Longrightarrow> rx_bounded dev"
  by (auto simp: RFDevice_init_def rx_bounded_def rx_buffer_ok_def MAX_CHANGES_def
      list_all_iff split: if_splits sum.splits option.splits)

text \<open>
  Claim C1, as amended. Take a transmitter and a receiver constructed for the same protocol,
  one of 1, 2, 3 and 5, without a pulse length override; a frame length between 3 and 32
  and at least two repetitions on the transmitter; a tolerance above 0 and at most 100
  percent on the receiver. For every code greater than 0 whose binary representation fits in
  the frame length, the pulse train of \<^verbatim>\<open>tx_code\<close>, delivered to the edge handler of the
  receiver with every hold time as the exact interval between two edges (the last one closed
  by a further edge), raises nothing and leaves the code in the mailbox. This holds for
  every floating-point division that rounds as \<open>float_division\<close> says, division without
  rounding among them.
\<close>

theorem round_trip:
  assumes "float_division fdiv"
    and "proto \<in> {1, 2, 3, 5}"
    and "RFDevice_init g proto None rep len tol = Inr tx0"
    and "RFDevice_init g' proto None rep' len' tol' = Inr rx0"
    and "3 \<le> len" and "len \<le> 32" and "2 \<le> rep" and "0 < tol'" and "tol' \<le> 100"
    and "0 < code" and "int (length (bin_digits (nat code))) \<le> len"
  shows "\<exists>rx'. rx_intervals fdiv (tx_intervals (fst (tx_code code (snd (enable_tx tx0)))))
                  (snd (enable_rx rx0)) = Inr rx'
               \<and> rx_code rx' = Some code"
proof -
  obtain p where p: "py_getitem Protocols PROTOCOLS proto = Inr (Some p)" "framed_protocol p"
    using framed_protocol_ids[OF assms(2)] by blast
  note ftx = RFDevice_init_fields[OF assms(3) p(1)]
  note frx = RFDevice_init_fields[OF assms(4) p(1)]
  let ?tx = "snd (enable_tx tx0)"
  let ?rx = "snd (enable_rx rx0)"
  have tx: "tx_enabled ?tx" "tx_proto ?tx = proto" "tx_pulselength ?tx = pulselength p"
      "tx_repeat ?tx = rep" "tx_length ?tx = len"
    using ftx by (simp_all add: enable_tx_def)
  have rx: "rx_proto ?rx = proto" "rx_tolerance ?rx = tol'" "rx_bounded ?rx"
    using frx RFDevice_init_bounded[OF assms(4)]
    by (simp_all add: enable_rx_def rx_bounded_def rx_buffer_ok_def)
  have range: "1 \<le> tx_proto ?tx" "tx_proto ?tx \<le> 5"
    using assms(2) tx(2) by auto
  have c0: "0 \<le> code" using assms(10) by simp
  have fit: "int (length (bin_digits (nat code))) \<le> tx_length ?tx"
    using assms(11) tx(5) by simp
  have ptx: "py_getitem Protocols PROTOCOLS (tx_proto ?tx) = Inr (Some p)"
    using p(1) tx(2) by simp
  let ?bits = "tx_rawcode ?tx code"
  have ints: "tx_intervals (fst (tx_code code ?tx)) =
           concat (replicate (nat rep) (frame_intervals p ?bits))"
    using tx_code_intervals[OF tx(1) range ptx tx(3) c0 fit] tx(4) by simp
  note fits = tx_rawcode_fits[OF c0 fit]
  have l: "3 \<le> length ?bits" "length ?bits \<le> 32"
    using fits(1) tx(5) assms(5,6) by simp_all
  have v: "bits_value ?bits \<noteq> 0" using fits(2) assms(10) by simp
  have prx: "py_getitem Protocols PROTOCOLS (rx_proto ?rx) = Inr (Some p)"
    using p(1) rx(1) by simp
  have t: "0 < rx_tolerance ?rx" "rx_tolerance ?rx \<le> 100"
    using rx(2) assms(8,9) by simp_all
  have r2: "2 \<le> nat rep" using assms(7) by simp
  from rx_frames[OF assms(1) p(2) t l v prx rx(3) r2]
  show ?thesis unfolding ints fits(2) .
qed

theorem round_trip_witness:
  "float_division exact_div
   \<and> (1::int) \<in> {1, 2, 3, 5}
   \<and> RFDevice_init 6 1 None 10 24 70 = Inr demo_device
   \<and> (3::int) \<le> 24 \<and> (24::int) \<le> 32 \<and> (2::int) \<le> 10 \<and> (0::int) < 70 \<and> (70::int) \<le> 100
   \<and> (0::int) < 255 \<and> int (length (bin_digits (nat 255))) \<le> 24
   \<and> (\<exists>rx'. rx_intervals exact_div
                  (tx_intervals (fst (tx_code 255 (snd (enable_tx demo_device)))))
                  (snd (enable_rx demo_device)) = Inr rx'
             \<and> rx_code rx' = Some 255)"
proof -
  have h1: "(1::int) \<in> {1, 2, 3, 5}" by simp
  have d: "bin_digits (nat 255) = ''11111111''" by code_simp
  have h2: "int (length (bin_digits (nat 255))) \<le> 24" by (simp only: d) simp
  show ?thesis
    using h1 h2 RFDevice_init_demo float_division_exact
      round_trip [OF float_division_exact h1 RFDevice_init_demo RFDevice_init_demo
        _ _ _ _ _ _ h2]
    by simp
qed

lemma RFDevice_init_demo4: "RFDevice_init 6 4 None 10 24 70 = Inr demo4_device"
  by (simp add: RFDevice_init_def PROTOCOLS_lookup Protocol_def MAX_CHANGES_def
      demo4_device_def demo_device_def)

text \<open>The claim as written fails for protocol 4: the low part of its sync waveform lasts
  6 * 380 * 3 = 6840 microseconds, below \<^verbatim>\<open>THRESHOLD_SYNC\<close>, so the handler never sees a
  frame boundary and after the ten repetitions of code 255 the mailbox is still empty.\<close>

theorem round_trip_counterexample:
  "RFDevice_init 6 4 None 10 24 70 = Inr demo4_device
   \<and> sync_low (Protocol 380 1 6 1 3 3 1) * unit_us (Protocol 380 1 6 1 3 3 1) = 6840
   \<and> fst (fst (tx_code 255 (snd (enable_tx demo4_device)))) = Inr True
   \<and> map_sum id rx_code
       (rx_intervals exact_div (tx_intervals (fst (tx_code 255 (snd (enable_tx demo4_device)))))
          (snd (enable_rx demo4_device))) = Inr None"
proof -
  have "sync_low (Protocol 380 1 6 1 3 3 1) * unit_us (Protocol 380 1 6 1 3 3 1) = 6840"
    by (simp add: Protocol_def unit_us_def SCALE_TIME_US_def)
  moreover have "fst (fst (tx_code 255 (snd (enable_tx demo4_device)))) = Inr True
   \<and> map_sum id rx_code
       (rx_intervals exact_div (tx_intervals (fst (tx_code 255 (snd (enable_tx demo4_device)))))
          (snd (enable_rx demo4_device))) = Inr None"
    by code_simp
  ultimately show ?thesis using RFDevice_init_demo4 by simp
qed

end
